theory Spec2Isabelle
  imports Main
begin

unbundle bit_operations_syntax

section \<open>Data model\<close>

text \<open>
  \<^verbatim>\<open>class BigNum { std::vector<uint64_t> digits; bool negative; ... }\<close> of
  \<^verbatim>\<open>include/bignum.h\<close>: the magnitude in base \<open>2^64\<close>, least significant word first, and
  a sign flag. A machine word is an \<open>int\<close> in the range of its type, and every place where
  the source wraps around is written out: \<open>u64\<close> and \<open>u128\<close> reduce modulo \<open>2^64\<close> and
  \<open>2^128\<close>, as a conversion to \<^verbatim>\<open>uint64_t\<close> or \<^verbatim>\<open>__uint128_t\<close> does. Indices and sizes
  are \<open>nat\<close>; the \<^verbatim>\<open>int\<close> shift amounts are \<open>int\<close> (their 32-bit range is not modelled).
\<close>

type_synonym uint8 = int
type_synonym uint64 = int
type_synonym uint128 = int

definition u8 :: "int \<Rightarrow> uint8" where "u8 x = take_bit 8 x"
definition u64 :: "int \<Rightarrow> uint64" where "u64 x = take_bit 64 x"
definition u128 :: "int \<Rightarrow> uint128" where "u128 x = take_bit 128 x"

abbreviation MASK64 :: int where "MASK64 \<equiv> 0xFFFFFFFFFFFFFFFF"
abbreviation UINT64_MAX :: int where "UINT64_MAX \<equiv> 0xFFFFFFFFFFFFFFFF"
abbreviation INT64_MAX :: int where "INT64_MAX \<equiv> 0x7FFFFFFFFFFFFFFF"

text \<open>Reduction modulo a power of two is a mask; the equations below are used to evaluate.\<close>

lemma u8_code [code]: "u8 x = x AND 0xFF"
  by (simp add: u8_def take_bit_eq_mask mask_eq_exp_minus_1)

lemma u64_code [code]: "u64 x = x AND 0xFFFFFFFFFFFFFFFF"
  by (simp add: u64_def take_bit_eq_mask mask_eq_exp_minus_1)

lemma u128_code [code]: "u128 x = x AND 0xFFFFFFFFFFFFFFFFFFFFFFFFFFFFFFFF"
  by (simp add: u128_def take_bit_eq_mask mask_eq_exp_minus_1)

lemma u64_range: "0 \<le> u64 x" "u64 x < 2 ^ 64"
  unfolding u64_def by (simp, rule take_bit_int_less_exp)

lemma u128_range: "0 \<le> u128 x" "u128 x < 2 ^ 128"
  unfolding u128_def by (simp, rule take_bit_int_less_exp)

lemma u64_id: "0 \<le> x \<Longrightarrow> x < 2 ^ 64 \<Longrightarrow> u64 x = x"
  by (simp add: u64_def take_bit_int_eq_self)

lemma u128_id: "0 \<le> x \<Longrightarrow> x < 2 ^ 128 \<Longrightarrow> u128 x = x"
  by (simp add: u128_def take_bit_int_eq_self)

text \<open>\<^verbatim>\<open>static_cast<int64_t>\<close>: the two's-complement reading of the low 64 bits.\<close>

definition s64 :: "int \<Rightarrow> int" where "s64 x = signed_take_bit 63 x"

record BigNum =
  digits :: "uint64 list"
  negative :: bool

datatype error =
  DivisionByZero | InvalidModulus | NotInvertible | InvalidHex | OverflowToInt64

abbreviation KARATSUBA_THRESHOLD :: nat where "KARATSUBA_THRESHOLD \<equiv> 8"
abbreviation MONTGOMERY_THRESHOLD :: nat where "MONTGOMERY_THRESHOLD \<equiv> 4"
abbreviation BARRETT_THRESHOLD :: nat where "BARRETT_THRESHOLD \<equiv> 8"

section \<open>Normalisation and constructors\<close>

text \<open>The \<^verbatim>\<open>while (digits.size() > 1 && digits.back() == 0) digits.pop_back();\<close> loop.\<close>

function pop_zeros :: "uint64 list \<Rightarrow> uint64 list" where
  "pop_zeros ds = (if length ds > 1 \<and> last ds = 0 then pop_zeros (butlast ds) else ds)"
  by pat_completeness auto
termination
  by (relation "measure length") auto

declare pop_zeros.simps [simp del]

definition removeLeadingZeros :: "BigNum \<Rightarrow> BigNum" where
  "removeLeadingZeros a =
     (let ds = pop_zeros (digits a)
      in \<lparr>digits = ds,
          negative = (if length ds = 1 \<and> ds ! 0 = 0 then False else negative a)\<rparr>)"

text \<open>\<^verbatim>\<open>BigNum(const std::vector<uint64_t>& digits, bool neg)\<close>.\<close>

definition mkBigNum :: "uint64 list \<Rightarrow> bool \<Rightarrow> BigNum" where
  "mkBigNum ds sg = removeLeadingZeros \<lparr>digits = ds, negative = sg\<rparr>"

text \<open>\<^verbatim>\<open>BigNum(int64_t value)\<close>.\<close>

definition ofInt64 :: "int \<Rightarrow> BigNum" where
  "ofInt64 v =
     (let sg = (v < 0);
          absValue = (if sg then u64 (- u64 v) else u64 v)
      in if absValue = 0 then \<lparr>digits = [0], negative = False\<rparr>
         else \<lparr>digits = [absValue], negative = sg\<rparr>)"

definition zero :: BigNum where "zero = ofInt64 0"
definition one :: BigNum where "one = ofInt64 1"
definition two :: BigNum where "two = ofInt64 2"

section \<open>Predicates\<close>

definition isZero :: "BigNum \<Rightarrow> bool" where
  "isZero a \<longleftrightarrow> length (digits a) = 1 \<and> digits a ! 0 = 0"

definition isOne :: "BigNum \<Rightarrow> bool" where
  "isOne a \<longleftrightarrow> \<not> negative a \<and> length (digits a) = 1 \<and> digits a ! 0 = 1"

definition isNegative :: "BigNum \<Rightarrow> bool" where
  "isNegative a \<longleftrightarrow> negative a \<and> \<not> isZero a"

definition isEven :: "BigNum \<Rightarrow> bool" where
  "isEven a \<longleftrightarrow> (digits a ! 0) AND 1 = 0"

definition isOdd :: "BigNum \<Rightarrow> bool" where
  "isOdd a \<longleftrightarrow> (digits a ! 0) AND 1 = 1"

text \<open>
  A digit vector as every constructor leaves it: non-empty, every word in the range of
  \<^verbatim>\<open>uint64_t\<close>, no leading zero word.
\<close>

definition wf_digits :: "BigNum \<Rightarrow> bool" where
  "wf_digits a \<longleftrightarrow>
     digits a \<noteq> [] \<and> list_all (\<lambda>d. 0 \<le> d \<and> d < 2 ^ 64) (digits a) \<and>
     (if length (digits a) > 1 then last (digits a) \<noteq> 0 else True)"

text \<open>The invariant of the data model: a well-formed digit vector and no negative zero.\<close>

definition canonical :: "BigNum \<Rightarrow> bool" where
  "canonical a \<longleftrightarrow>
     wf_digits a \<and> (if list_all (\<lambda>d. d = 0) (digits a) then \<not> negative a else True)"

text \<open>The represented integer: \<open>(-1)^negative * \<Sum> digits[i] * 2^(64 i)\<close>.\<close>

definition mag_words :: "uint64 list \<Rightarrow> int" where
  "mag_words ds = foldr (\<lambda>d acc. d + 2 ^ 64 * acc) ds 0"

definition magnitude :: "BigNum \<Rightarrow> int" where
  "magnitude a = mag_words (digits a)"

definition bn_val :: "BigNum \<Rightarrow> int" where
  "bn_val a = (if negative a then - magnitude a else magnitude a)"

section \<open>Comparison\<close>

text \<open>
  The scan \<^verbatim>\<open>for (int i = digits.size() - 1; i >= 0; --i)\<close> over two vectors of the same
  size, from the most significant word down; it is run on the reversed vectors.
\<close>

fun cmp_words :: "uint64 list \<Rightarrow> uint64 list \<Rightarrow> int" where
  "cmp_words (x # xs) (y # ys) =
     (if x \<noteq> y then (if x < y then - 1 else 1) else cmp_words xs ys)"
| "cmp_words _ _ = 0"

definition compare :: "BigNum \<Rightarrow> BigNum \<Rightarrow> int" where
  "compare a b =
     (if negative a \<noteq> negative b then (if negative a then - 1 else 1)
      else let sign = (if negative a then - 1 else 1 :: int)
           in if length (digits a) \<noteq> length (digits b)
              then sign * (if length (digits a) < length (digits b) then - 1 else 1)
              else sign * cmp_words (rev (digits a)) (rev (digits b)))"

definition bn_eq :: "BigNum \<Rightarrow> BigNum \<Rightarrow> bool" where "bn_eq a b \<longleftrightarrow> compare a b = 0"
definition bn_lt :: "BigNum \<Rightarrow> BigNum \<Rightarrow> bool" where "bn_lt a b \<longleftrightarrow> compare a b < 0"
definition bn_le :: "BigNum \<Rightarrow> BigNum \<Rightarrow> bool" where "bn_le a b \<longleftrightarrow> compare a b \<le> 0"
definition bn_gt :: "BigNum \<Rightarrow> BigNum \<Rightarrow> bool" where "bn_gt a b \<longleftrightarrow> compare a b > 0"
definition bn_ge :: "BigNum \<Rightarrow> BigNum \<Rightarrow> bool" where "bn_ge a b \<longleftrightarrow> compare a b \<ge> 0"

section \<open>Addition and subtraction\<close>

text \<open>
  \<^verbatim>\<open>addUnsigned\<close>: \<^verbatim>\<open>for (size_t i = 0; i < maxSize || carry; ++i)\<close> with a 128-bit sum and
  carry.
\<close>

definition add_step :: "uint64 list \<Rightarrow> uint64 list \<Rightarrow> nat \<Rightarrow> uint128 \<Rightarrow> uint128" where
  "add_step a b i carry =
     u128 (carry + (if i < length a then a ! i else 0) + (if i < length b then b ! i else 0))"

definition carry_rank :: "int \<Rightarrow> nat" where
  "carry_rank c = (if c = 0 then 0 else if 0 < c \<and> c < 2 ^ 64 then 1 else 2)"

lemma drop_bit_64_u128: "0 \<le> drop_bit 64 (u128 x)" "drop_bit 64 (u128 x) < 2 ^ 64"
proof -
  have "u128 x < 2 ^ 64 * 2 ^ 64" using u128_range(2) [of x] by simp
  then show "drop_bit 64 (u128 x) < 2 ^ 64"
    by (simp add: drop_bit_eq_div div_less_iff_less_mult)
  show "0 \<le> drop_bit 64 (u128 x)"
    using u128_range(1) [of x] by (simp add: drop_bit_eq_div)
qed

lemma carry_rank_decreases:
  assumes "c \<noteq> 0"
  shows "carry_rank (drop_bit 64 (u128 c)) < carry_rank c"
proof (cases "0 < c \<and> c < 2 ^ 64")
  case True
  then have "u128 c = c" by (intro u128_id) simp_all
  moreover have "drop_bit 64 c = 0" using True by (simp add: drop_bit_eq_div)
  ultimately show ?thesis using True by (simp add: carry_rank_def)
next
  case False
  with assms have "carry_rank c = 2" by (auto simp: carry_rank_def)
  moreover have "carry_rank (drop_bit 64 (u128 c)) \<le> 1"
  proof -
    define d where "d = drop_bit 64 (u128 c)"
    have "0 \<le> d" "d < 2 ^ 64" unfolding d_def by (rule drop_bit_64_u128)+
    then have "carry_rank d \<le> 1" by (simp add: carry_rank_def)
    then show ?thesis by (simp only: d_def)
  qed
  ultimately show ?thesis by simp
qed

function add_loop ::
  "uint64 list \<Rightarrow> uint64 list \<Rightarrow> nat \<Rightarrow> uint128 \<Rightarrow> uint64 list \<Rightarrow> uint64 list" where
  "add_loop a b i carry result =
     (if i < max (length a) (length b) \<or> carry \<noteq> 0
      then let sum = add_step a b i carry
           in add_loop a b (i + 1) (drop_bit 64 sum) (result @ [u64 (sum AND MASK64)])
      else result)"
  by pat_completeness auto
termination
proof (relation "measures [\<lambda>(a, b, i, carry, result). max (length a) (length b) - i,
                           \<lambda>(a, b, i, carry, result). carry_rank carry]", goal_cases)
  case 1
  show ?case by simp
next
  case (2 a b i carry result sum)
  show ?case
  proof (cases "i < max (length a) (length b)")
    case True
    then show ?thesis by auto
  next
    case False
    with 2 have c: "carry \<noteq> 0" by simp
    from False have "\<not> i < length a" "\<not> i < length b" by auto
    then have "sum = u128 carry" using 2 by (simp add: add_step_def)
    with c have "carry_rank (drop_bit 64 sum) < carry_rank carry"
      using carry_rank_decreases [of carry] by simp
    with False show ?thesis by auto
  qed
qed

declare add_loop.simps [simp del]

definition addUnsigned :: "BigNum \<Rightarrow> BigNum \<Rightarrow> BigNum" where
  "addUnsigned a b = mkBigNum (add_loop (digits a) (digits b) 0 0 []) False"

text \<open>
  \<^verbatim>\<open>subtractUnsigned\<close>. The test \<^verbatim>\<open>ai >= bi + borrow\<close> is evaluated in \<^verbatim>\<open>uint64_t\<close>, so
  \<open>bi + borrow\<close> wraps to \<open>0\<close> when \<open>bi\<close> is the maximal word and a borrow is pending; the
  constant \<^verbatim>\<open>UINT64_MAX + 1\<close> of the other branch is \<open>0\<close> in \<^verbatim>\<open>uint64_t\<close> as well.
\<close>

definition sub_step ::
  "uint64 list \<Rightarrow> uint64 list \<Rightarrow> nat \<Rightarrow> uint64 list \<times> uint64 \<Rightarrow> uint64 list \<times> uint64" where
  "sub_step a b i st =
     (let result = fst st; borrow = snd st;
          ai = a ! i;
          bi = (if i < length b then b ! i else 0)
      in if ai \<ge> u64 (bi + borrow)
         then (result @ [u64 (ai - bi - borrow)], 0)
         else (result @ [u64 (ai + u64 (UINT64_MAX + 1) - bi - borrow)], 1))"

definition subtractUnsigned :: "BigNum \<Rightarrow> BigNum \<Rightarrow> BigNum" where
  "subtractUnsigned a b =
     mkBigNum (fst (fold (sub_step (digits a) (digits b)) [0 ..< length (digits a)] ([], 0))) False"

text \<open>Unary minus: the sign of a zero is left as it is.\<close>

definition neg :: "BigNum \<Rightarrow> BigNum" where
  "neg a = (if \<not> isZero a then a\<lparr>negative := \<not> negative a\<rparr> else a)"

text \<open>
  \<^verbatim>\<open>operator+\<close>. With different signs the magnitudes are compared by size and then from the
  most significant word down (\<open>abs_compare\<close>); the result of the unsigned helper gets its
  sign flag assigned afterwards, with no further normalisation.
\<close>

definition abs_compare :: "BigNum \<Rightarrow> BigNum \<Rightarrow> int" where
  "abs_compare a b =
     (if length (digits a) \<noteq> length (digits b)
      then (if length (digits a) < length (digits b) then - 1 else 1)
      else cmp_words (rev (digits a)) (rev (digits b)))"

definition add :: "BigNum \<Rightarrow> BigNum \<Rightarrow> BigNum" where
  "add a b =
     (if negative a = negative b
      then (addUnsigned a b)\<lparr>negative := negative a\<rparr>
      else if abs_compare a b \<ge> 0
           then (subtractUnsigned a b)\<lparr>negative := negative a\<rparr>
           else (subtractUnsigned b a)\<lparr>negative := negative b\<rparr>)"

definition sub :: "BigNum \<Rightarrow> BigNum \<Rightarrow> BigNum" where
  "sub a b = add a (neg b)"

section \<open>Shifts and bitwise operations\<close>

text \<open>\<^verbatim>\<open>std::copy(src.begin(), src.end(), dst.begin() + off)\<close> for a source that fits.\<close>

definition copy_at :: "uint64 list \<Rightarrow> uint64 list \<Rightarrow> nat \<Rightarrow> uint64 list" where
  "copy_at src dst off = take off dst @ src @ drop (off + length src) dst"

definition shl_step ::
  "uint64 list \<Rightarrow> nat \<Rightarrow> nat \<Rightarrow> nat \<Rightarrow> uint64 list \<times> uint64 \<Rightarrow> uint64 list \<times> uint64" where
  "shl_step ds wordShift bitShift i st =
     (let result = fst st; carry = snd st;
          temp = u128 (push_bit bitShift (ds ! i)) OR carry
      in (result[i + wordShift := u64 (temp AND MASK64)], u64 (drop_bit 64 temp)))"

definition shl :: "BigNum \<Rightarrow> int \<Rightarrow> BigNum" where
  "shl a shift =
     (if shift \<le> 0 then a
      else let ds = digits a;
               wordShift = nat (shift div 64);
               bitShift = nat (shift mod 64);
               result = replicate (length ds + wordShift + 1) 0
           in if bitShift = 0 then mkBigNum (copy_at ds result wordShift) (negative a)
              else let st = fold (shl_step ds wordShift bitShift) [0 ..< length ds] (result, 0);
                       result = fst st; carry = snd st
                   in mkBigNum (if carry \<noteq> 0 then result[length ds + wordShift := carry]
                                else result) (negative a))"

definition shr_step ::
  "uint64 list \<Rightarrow> nat \<Rightarrow> nat \<Rightarrow> nat \<Rightarrow> uint64 list \<times> uint64 \<Rightarrow> uint64 list \<times> uint64" where
  "shr_step ds wordShift bitShift i st =
     (let result = fst st; carry = snd st;
          temp = u128 (push_bit 64 carry) OR ds ! i
      in (result[i - wordShift := u64 (drop_bit bitShift temp)],
          u64 (temp AND u64 (u64 (push_bit bitShift 1) - 1))))"

definition shr :: "BigNum \<Rightarrow> int \<Rightarrow> BigNum" where
  "shr a shift =
     (if shift \<le> 0 then a
      else let ds = digits a;
               wordShift = nat (shift div 64);
               bitShift = nat (shift mod 64)
           in if wordShift \<ge> length ds then zero
              else let result = replicate (length ds - wordShift) 0
                   in if bitShift = 0 then mkBigNum (copy_at (drop wordShift ds) result 0) (negative a)
                      else mkBigNum
                             (fst (fold (shr_step ds wordShift bitShift)
                                     (rev [wordShift ..< length ds]) (result, 0)))
                             (negative a))"

text \<open>\<^verbatim>\<open>operator&\<close>, \<^verbatim>\<open>operator|\<close>, \<^verbatim>\<open>operator^\<close>: word by word on the magnitudes.\<close>

definition bitwise_digit :: "(uint64 \<Rightarrow> uint64 \<Rightarrow> uint64) \<Rightarrow> BigNum \<Rightarrow> BigNum \<Rightarrow> nat \<Rightarrow> uint64" where
  "bitwise_digit f a b i =
     f (if i < length (digits a) then digits a ! i else 0)
       (if i < length (digits b) then digits b ! i else 0)"

definition bitwise :: "(uint64 \<Rightarrow> uint64 \<Rightarrow> uint64) \<Rightarrow> BigNum \<Rightarrow> BigNum \<Rightarrow> BigNum" where
  "bitwise f a b =
     mkBigNum (map (bitwise_digit f a b) [0 ..< max (length (digits a)) (length (digits b))]) False"

definition bn_and :: "BigNum \<Rightarrow> BigNum \<Rightarrow> BigNum" where "bn_and = bitwise (AND)"
definition bn_or :: "BigNum \<Rightarrow> BigNum \<Rightarrow> BigNum" where "bn_or = bitwise (OR)"
definition bn_xor :: "BigNum \<Rightarrow> BigNum \<Rightarrow> BigNum" where "bn_xor = bitwise (XOR)"

section \<open>Multiplication\<close>

text \<open>
  The inner loop of \<^verbatim>\<open>multiplySchoolbook\<close>,
  \<^verbatim>\<open>for (size_t j = 0; j < b.size() || carry; ++j)\<close>. The source indexes \<^verbatim>\<open>result[i + j]\<close>
  unchecked; the row stops here at the end of the vector, where the source would have
  undefined behaviour.
\<close>

function mul_row ::
  "uint64 \<Rightarrow> uint64 list \<Rightarrow> nat \<Rightarrow> nat \<Rightarrow> uint128 \<Rightarrow> uint64 list \<Rightarrow> uint64 list" where
  "mul_row ai b i j carry result =
     (if (j < length b \<or> carry \<noteq> 0) \<and> i + j < length result
      then let prod = u128 (result ! (i + j) + carry);
               prod = (if j < length b then u128 (prod + u128 (ai * (b ! j))) else prod)
           in mul_row ai b i (j + 1) (drop_bit 64 prod) (result[i + j := u64 (prod AND MASK64)])
      else result)"
  by pat_completeness auto
termination
  by (relation "measure (\<lambda>(ai, b, i, j, carry, result). length result - (i + j))") auto

declare mul_row.simps [simp del]

definition mul_rows :: "BigNum \<Rightarrow> BigNum \<Rightarrow> nat \<Rightarrow> uint64 list \<Rightarrow> uint64 list" where
  "mul_rows a b i result = mul_row (digits a ! i) (digits b) i 0 0 result"

definition multiplySchoolbook :: "BigNum \<Rightarrow> BigNum \<Rightarrow> BigNum" where
  "multiplySchoolbook a b =
     mkBigNum
       (fold (mul_rows a b) [0 ..< length (digits a)]
          (replicate (length (digits a) + length (digits b)) 0))
       False"

text \<open>\<^verbatim>\<open>while (a.digits.size() < n) a.digits.push_back(0);\<close>\<close>

definition pad_to :: "nat \<Rightarrow> uint64 list \<Rightarrow> uint64 list" where
  "pad_to n ds = ds @ replicate (n - length ds) 0"

text \<open>
  Sizes of the operands of the recursive calls of \<^verbatim>\<open>multiplyKaratsuba\<close>: normalisation
  never lengthens a vector and a sum of two non-negative numbers has at most one word
  more than the longer operand.
\<close>

lemma length_pop_zeros: "length (pop_zeros ds) \<le> length ds"
proof (induction ds rule: pop_zeros.induct)
  case (1 ds)
  show ?case
  proof (cases "length ds > 1 \<and> last ds = 0")
    case True
    then have "pop_zeros ds = pop_zeros (butlast ds)" by (subst pop_zeros.simps) simp
    with 1 True show ?thesis by simp
  next
    case False
    then have "pop_zeros ds = ds" by (subst pop_zeros.simps) auto
    then show ?thesis by simp
  qed
qed

lemma length_mkBigNum: "length (digits (mkBigNum ds sg)) \<le> length ds"
  by (simp add: mkBigNum_def removeLeadingZeros_def Let_def length_pop_zeros)

lemma negative_mkBigNum_False [simp]: "negative (mkBigNum ds False) = False"
  by (simp add: mkBigNum_def removeLeadingZeros_def Let_def)

lemma length_add_loop:
  "0 \<le> carry \<Longrightarrow> carry < 2 ^ 64 \<Longrightarrow> i \<le> max (length a) (length b) \<Longrightarrow>
   length (add_loop a b i carry result) \<le> length result + (max (length a) (length b) - i) + 1"
proof (induction a b i carry result rule: add_loop.induct)
  case (1 a b i carry result)
  let ?M = "max (length a) (length b)"
  let ?sum = "add_step a b i carry"
  let ?c' = "drop_bit 64 ?sum"
  let ?r' = "result @ [u64 (?sum AND MASK64)]"
  show ?case
  proof (cases "i < ?M \<or> carry \<noteq> 0")
    case False
    then show ?thesis by (subst add_loop.simps) simp
  next
    case True
    have step: "add_loop a b i carry result = add_loop a b (i + 1) ?c' ?r'"
      using True by (subst add_loop.simps) (simp add: Let_def)
    have c': "0 \<le> ?c'" "?c' < 2 ^ 64"
      unfolding add_step_def by (rule drop_bit_64_u128)+
    show ?thesis
    proof (cases "i < ?M")
      case True
      then have "length (add_loop a b (i + 1) ?c' ?r') \<le> length ?r' + (?M - (i + 1)) + 1"
        using "1.IH" [OF _ refl c'] by simp
      with True step show ?thesis by simp
    next
      case False
      from False have "\<not> i < length a" "\<not> i < length b" by auto
      then have "?sum = u128 carry" by (simp add: add_step_def)
      moreover have "u128 carry = carry"
        using "1.prems"(1,2) by (intro u128_id) simp_all
      moreover have "drop_bit 64 carry = 0"
        using "1.prems"(1,2) by (simp add: drop_bit_eq_div)
      ultimately have "?c' = 0" by simp
      then have "add_loop a b (i + 1) ?c' ?r' = ?r'"
        using False by (subst add_loop.simps) auto
      with step show ?thesis by simp
    qed
  qed
qed

lemma length_addUnsigned:
  "length (digits (addUnsigned a b)) \<le> max (length (digits a)) (length (digits b)) + 1"
proof -
  have "length (add_loop (digits a) (digits b) 0 0 []) \<le> max (length (digits a)) (length (digits b)) + 1"
    using length_add_loop [of 0 0 "digits a" "digits b" "[]"] by simp
  then show ?thesis
    unfolding addUnsigned_def using length_mkBigNum le_trans by blast
qed

lemma length_add_nonneg:
  "\<not> negative a \<Longrightarrow> \<not> negative b \<Longrightarrow>
   length (digits (add a b)) \<le> max (length (digits a)) (length (digits b)) + 1"
  using length_addUnsigned [of a b] by (simp add: add_def)

lemma length_split_lo: "length (digits (mkBigNum (take h ds) False)) \<le> h"
  using length_mkBigNum [of "take h ds" False] by simp

lemma length_split_hi:
  "length ds = n \<Longrightarrow> length (digits (mkBigNum (drop h ds) False)) \<le> n - h"
  using length_mkBigNum [of "drop h ds" False] by simp

lemma length_pad_to: "length ds \<le> n \<Longrightarrow> length (pad_to n ds) = n"
  by (simp add: pad_to_def)

lemma kar_sizes:
  assumes "maxSize = max (length (digits a)) (length (digits b))"
    and "\<not> maxSize < KARATSUBA_THRESHOLD"
    and "n = (if maxSize mod 2 \<noteq> 0 then maxSize + 1 else maxSize)"
    and "half = n div 2"
  shows "length (pad_to n (digits a)) = n" and "length (pad_to n (digits b)) = n"
    and "half < maxSize" and "n - half < maxSize"
    and "half + 1 < maxSize" and "n - half + 1 < maxSize"
proof -
  have "length (digits a) \<le> n" "length (digits b) \<le> n"
    using assms(1,3) by auto
  then show "length (pad_to n (digits a)) = n" and "length (pad_to n (digits b)) = n"
    by (simp_all add: length_pad_to)
  have "n \<le> maxSize + 1" "8 \<le> maxSize" "maxSize \<le> n" using assms(2,3) by auto
  then show "half < maxSize" and "n - half < maxSize"
    and "half + 1 < maxSize" and "n - half + 1 < maxSize"
    using assms(4) by auto
qed

text \<open>
  \<^verbatim>\<open>multiplyUnsigned\<close> chooses the algorithm by the larger digit count;
  \<^verbatim>\<open>multiplyKaratsuba\<close> splits at \<open>half\<close> and recurs through \<^verbatim>\<open>multiplyUnsigned\<close>, with the
  signed \<^verbatim>\<open>operator+\<close>, \<^verbatim>\<open>operator-\<close> and \<^verbatim>\<open>operator<<\<close> in between.
\<close>

function multiplyUnsigned :: "BigNum \<Rightarrow> BigNum \<Rightarrow> BigNum"
  and multiplyKaratsuba :: "BigNum \<Rightarrow> BigNum \<Rightarrow> BigNum" where
  "multiplyUnsigned a b =
     (if max (length (digits a)) (length (digits b)) \<ge> KARATSUBA_THRESHOLD
      then multiplyKaratsuba a b
      else multiplySchoolbook a b)"
| "multiplyKaratsuba a b =
     (let maxSize = max (length (digits a)) (length (digits b))
      in if maxSize < KARATSUBA_THRESHOLD then multiplySchoolbook a b
         else let n = (if maxSize mod 2 \<noteq> 0 then maxSize + 1 else maxSize);
                  ad = pad_to n (digits a);
                  bd = pad_to n (digits b);
                  half = n div 2;
                  a0 = mkBigNum (take half ad) False;
                  a1 = mkBigNum (drop half ad) False;
                  b0 = mkBigNum (take half bd) False;
                  b1 = mkBigNum (drop half bd) False;
                  z0 = multiplyUnsigned a0 b0;
                  z2 = multiplyUnsigned a1 b1;
                  z1 = sub (sub (multiplyUnsigned (add a1 a0) (add b1 b0)) z2) z0;
                  result = z0;
                  result = add result (shl z1 (int (half * 64)));
                  result = add result (shl z2 (int (n * 64)))
              in result)"
  by pat_completeness auto
termination
proof (relation "measure (\<lambda>p. case p of
          Inl (a, b) \<Rightarrow> 2 * max (length (digits a)) (length (digits b)) + 1
        | Inr (a, b) \<Rightarrow> 2 * max (length (digits a)) (length (digits b)))", goal_cases)
  case 1
  show ?case by simp
next
  case (2 a b)
  show ?case by simp
next
  case (3 a b maxSize n ad bd half a0 a1 b0 b1)
  note sz = kar_sizes [OF \<open>maxSize = _\<close> \<open>\<not> maxSize < _\<close> \<open>n = _\<close> \<open>half = _\<close>]
  have "length (digits a0) \<le> half" "length (digits b0) \<le> half"
    unfolding \<open>a0 = _\<close> \<open>b0 = _\<close> by (rule length_split_lo)+
  then show ?case using sz(3) \<open>maxSize = _\<close> by auto
next
  case (4 a b maxSize n ad bd half a0 a1 b0 b1 z0)
  note sz = kar_sizes [OF \<open>maxSize = _\<close> \<open>\<not> maxSize < _\<close> \<open>n = _\<close> \<open>half = _\<close>]
  have "length (digits a1) \<le> n - half" "length (digits b1) \<le> n - half"
    unfolding \<open>a1 = _\<close> \<open>b1 = _\<close> \<open>ad = _\<close> \<open>bd = _\<close>
    using sz(1,2) by (auto intro: length_split_hi)
  then show ?case using sz(4) \<open>maxSize = _\<close> by auto
next
  case (5 a b maxSize n ad bd half a0 a1 b0 b1 z0 z2)
  note sz = kar_sizes [OF \<open>maxSize = _\<close> \<open>\<not> maxSize < _\<close> \<open>n = _\<close> \<open>half = _\<close>]
  have lo: "length (digits a0) \<le> half" "length (digits b0) \<le> half"
    unfolding \<open>a0 = _\<close> \<open>b0 = _\<close> by (rule length_split_lo)+
  have hi: "length (digits a1) \<le> n - half" "length (digits b1) \<le> n - half"
    unfolding \<open>a1 = _\<close> \<open>b1 = _\<close> \<open>ad = _\<close> \<open>bd = _\<close>
    using sz(1,2) by (auto intro: length_split_hi)
  have nn: "\<not> negative a0" "\<not> negative a1" "\<not> negative b0" "\<not> negative b1"
    unfolding \<open>a0 = _\<close> \<open>b0 = _\<close> \<open>a1 = _\<close> \<open>b1 = _\<close> by simp_all
  have "length (digits (add a1 a0)) \<le> max (length (digits a1)) (length (digits a0)) + 1"
       "length (digits (add b1 b0)) \<le> max (length (digits b1)) (length (digits b0)) + 1"
    using nn length_add_nonneg [of a1 a0] length_add_nonneg [of b1 b0] by simp_all
  then have "length (digits (add a1 a0)) < maxSize" "length (digits (add b1 b0)) < maxSize"
    using sz(5,6) lo hi by linarith+
  then show ?case using \<open>maxSize = _\<close> by simp
qed

declare multiplyUnsigned.simps [simp del] multiplyKaratsuba.simps [simp del]

text \<open>\<^verbatim>\<open>operator*\<close>: the sign is assigned, then the result is normalised.\<close>

definition mul :: "BigNum \<Rightarrow> BigNum \<Rightarrow> BigNum" where
  "mul a b =
     removeLeadingZeros ((multiplyUnsigned a b)\<lparr>negative := (negative a \<noteq> negative b)\<rparr>)"

section \<open>Division\<close>

text \<open>
  Results of the operations that can throw or fail to return: \<open>None\<close> is a run that does
  not return, \<open>Some (Inl e)\<close> an exception, \<open>Some (Inr x)\<close> the value returned.
\<close>

definition ok :: "'a \<Rightarrow> (error + 'a) option" where
  "ok x = Some (Inr x)"

definition throw :: "error \<Rightarrow> (error + 'a) option" where
  "throw e = Some (Inl e)"

text \<open>
  \<^verbatim>\<open>while (temp <= remainder) { temp <<= 1; shift++; }\<close> of \<^verbatim>\<open>divideUnsigned\<close>. The
  comparison is the signed \<^verbatim>\<open>compare\<close>, so the loop need not end.
\<close>

partial_function (option) find_shift :: "BigNum \<Rightarrow> BigNum \<Rightarrow> int \<Rightarrow> (BigNum \<times> int) option" where
  "find_shift temp remainder shift =
     (if bn_le temp remainder then find_shift (shl temp 1) remainder (shift + 1)
      else Some (temp, shift))"

declare find_shift.simps [code]

text \<open>
  \<^verbatim>\<open>for (int i = shift; i >= 0; --i)\<close>, returning the pair of \<^verbatim>\<open>quotient\<close> (here \<open>quo\<close>)
  and \<^verbatim>\<open>remainder\<close>.
\<close>

function div_loop :: "int \<Rightarrow> BigNum \<Rightarrow> BigNum \<Rightarrow> BigNum \<Rightarrow> BigNum \<times> BigNum" where
  "div_loop i remainder quo temp =
     (if i \<ge> 0
      then if bn_ge remainder temp
           then div_loop (i - 1) (sub remainder temp) (add quo (shl (ofInt64 1) i)) (shr temp 1)
           else div_loop (i - 1) remainder quo (shr temp 1)
      else (quo, remainder))"
  by pat_completeness auto
termination
  by (relation "measure (\<lambda>(i, remainder, quo, temp). nat (i + 1))") auto

declare div_loop.simps [simp del]

definition divideUnsigned :: "BigNum \<Rightarrow> BigNum \<Rightarrow> (error + BigNum \<times> BigNum) option" where
  "divideUnsigned a divisor =
     (if isZero divisor then throw DivisionByZero
      else if compare a divisor < 0 then ok (ofInt64 0, a)
      else case find_shift divisor a 0 of
             None \<Rightarrow> None
           | Some (temp, shift) \<Rightarrow> ok (div_loop (shift - 1) a (ofInt64 0) (shr temp 1)))"

text \<open>\<^verbatim>\<open>operator/\<close> and \<^verbatim>\<open>operator%\<close>: the sign is assigned, then the result is normalised.\<close>

definition bn_div :: "BigNum \<Rightarrow> BigNum \<Rightarrow> (error + BigNum) option" where
  "bn_div a b =
     (case divideUnsigned a b of
        None \<Rightarrow> None
      | Some (Inl e) \<Rightarrow> throw e
      | Some (Inr (q, r)) \<Rightarrow> ok (removeLeadingZeros (q\<lparr>negative := (negative a \<noteq> negative b)\<rparr>)))"

definition bn_mod :: "BigNum \<Rightarrow> BigNum \<Rightarrow> (error + BigNum) option" where
  "bn_mod a b =
     (case divideUnsigned a b of
        None \<Rightarrow> None
      | Some (Inl e) \<Rightarrow> throw e
      | Some (Inr (q, r)) \<Rightarrow> ok (removeLeadingZeros (r\<lparr>negative := negative a\<rparr>)))"

section \<open>Bit length and conversions\<close>

text \<open>\<^verbatim>\<open>while (topDigit) { bits++; topDigit >>= 1; }\<close> of \<^verbatim>\<open>bitLength\<close>.\<close>

function count_bits :: "nat \<Rightarrow> uint64 \<Rightarrow> nat" where
  "count_bits bits topDigit =
     (if topDigit \<noteq> 0 then count_bits (bits + 1) (u64 (drop_bit 1 topDigit)) else bits)"
  by pat_completeness auto
termination
proof (relation "measure (\<lambda>(bits, topDigit).
          if 0 \<le> topDigit \<and> topDigit < 2 ^ 64 then nat topDigit else 2 ^ 64)", goal_cases)
  case 1
  show ?case by simp
next
  case (2 bits topDigit)
  define t' where "t' = u64 (drop_bit 1 topDigit)"
  have r: "0 \<le> t'" "t' < 2 ^ 64" unfolding t'_def by (rule u64_range)+
  show ?case
  proof (cases "0 \<le> topDigit \<and> topDigit < 2 ^ 64")
    case True
    with 2 have pos: "0 < topDigit" by simp
    have "drop_bit 1 topDigit = topDigit div 2" by (simp add: drop_bit_eq_div)
    moreover have "0 \<le> topDigit div 2" "topDigit div 2 < 2 ^ 64" "topDigit div 2 < topDigit"
      using True pos by simp_all
    ultimately have "t' = topDigit div 2" "t' < topDigit"
      unfolding t'_def by (simp_all add: u64_id)
    then show ?thesis using True r unfolding t'_def [symmetric] by auto
  next
    case False
    have "nat t' < 2 ^ 64" using r by (simp add: nat_less_iff)
    then show ?thesis using False r unfolding t'_def [symmetric] by auto
  qed
qed

declare count_bits.simps [simp del]

definition bitLength :: "BigNum \<Rightarrow> nat" where
  "bitLength a =
     (if isZero a then 0
      else count_bits ((length (digits a) - 1) * 64) (last (digits a)))"

definition byteLength :: "BigNum \<Rightarrow> nat" where
  "byteLength a = (bitLength a + 7) div 8"

text \<open>\<^verbatim>\<open>toByteArray\<close>: big-endian bytes of the magnitude; one step of its loop, then the loop.\<close>

definition to_byte_step :: "BigNum \<Rightarrow> nat \<Rightarrow> nat \<Rightarrow> uint8 list \<Rightarrow> uint8 list" where
  "to_byte_step a byteLen i result =
     (let digitIndex = i div 8; byteIndex = i mod 8
      in if digitIndex < length (digits a)
         then result[byteLen - 1 - i :=
                u8 (drop_bit (byteIndex * 8) (digits a ! digitIndex) AND 0xFF)]
         else result)"

definition toByteArray :: "BigNum \<Rightarrow> uint8 list" where
  "toByteArray a =
     (let byteLen = byteLength a
      in fold (to_byte_step a byteLen) [0 ..< byteLen] (replicate byteLen 0))"

text \<open>\<^verbatim>\<open>fromByteArray\<close>: the empty sequence is zero.\<close>

definition from_byte_step :: "uint8 list \<Rightarrow> nat \<Rightarrow> uint64 list \<Rightarrow> uint64 list" where
  "from_byte_step bytes i ds =
     (let digitIndex = (length bytes - 1 - i) div 8;
          byteIndex = (length bytes - 1 - i) mod 8
      in ds[digitIndex := ds ! digitIndex OR u64 (push_bit (byteIndex * 8) (u64 (bytes ! i)))])"

definition fromByteArray :: "uint8 list \<Rightarrow> BigNum" where
  "fromByteArray bytes =
     (if bytes = [] then zero
      else let numDigits = (length bytes + 7) div 8
           in mkBigNum (fold (from_byte_step bytes) [0 ..< length bytes] (replicate numDigits 0))
                False)"

text \<open>
  A computation on \<^verbatim>\<open>int64_t\<close> has a defined result only when that result is
  representable: \<open>Undefined\<close> is a run whose behaviour the language leaves undefined.
  Unary minus is undefined at the minimal \<^verbatim>\<open>int64_t\<close>.
\<close>

datatype 'a behaviour = Defined 'a | Undefined

abbreviation INT64_MIN :: int where "INT64_MIN \<equiv> - 0x8000000000000000"

definition neg_int64 :: "int \<Rightarrow> int behaviour" where
  "neg_int64 x = (if x = INT64_MIN then Undefined else Defined (- x))"

text \<open>
  \<^verbatim>\<open>toInt64\<close>. A defined result is the exception or the value of the \<^verbatim>\<open>int64_t\<close>
  returned. The negative branch returns \<^verbatim>\<open>-static_cast<int64_t>(value)\<close>: the conversion
  gives the two's-complement reading of the word, and the negation is the unary minus
  above.
\<close>

definition toInt64 :: "BigNum \<Rightarrow> (error + int) behaviour" where
  "toInt64 a =
     (if length (digits a) > 1 then Defined (Inl OverflowToInt64)
      else if isZero a then Defined (Inr 0)
      else let val = digits a ! 0
           in if \<not> isNegative a
              then (if val > u64 INT64_MAX then Defined (Inl OverflowToInt64)
                    else Defined (Inr (s64 val)))
              else let limit = u64 (u64 INT64_MAX + 1)
                   in if val > limit then Defined (Inl OverflowToInt64)
                      else case neg_int64 (s64 val) of
                             Undefined \<Rightarrow> Undefined
                           | Defined v \<Rightarrow> Defined (Inr v))"

section \<open>Hex parsing\<close>

text \<open>
  One character of a chunk: \<^verbatim>\<open>value <<= 4\<close>, then the digit is or-ed in, or the
  character is rejected. Characters are compared by their codes.
\<close>

definition in_range :: "char \<Rightarrow> char \<Rightarrow> char \<Rightarrow> bool" where
  "in_range lo hi c \<longleftrightarrow> (of_char lo :: nat) \<le> of_char c \<and> (of_char c :: nat) \<le> of_char hi"

definition hex_char :: "uint64 \<Rightarrow> char \<Rightarrow> error + uint64" where
  "hex_char v c =
     (let v = u64 (push_bit 4 v)
      in if in_range CHR ''0'' CHR ''9'' c
         then Inr (v OR int (of_char c - of_char CHR ''0''))
         else if in_range CHR ''a'' CHR ''f'' c
         then Inr (v OR int (of_char c - of_char CHR ''a'' + 10))
         else if in_range CHR ''A'' CHR ''F'' c
         then Inr (v OR int (of_char c - of_char CHR ''A'' + 10))
         else Inl InvalidHex)"

fun parse_chunk :: "uint64 \<Rightarrow> string \<Rightarrow> error + uint64" where
  "parse_chunk v [] = Inr v"
| "parse_chunk v (c # cs) = (case hex_char v c of Inl e \<Rightarrow> Inl e | Inr v' \<Rightarrow> parse_chunk v' cs)"

text \<open>\<^verbatim>\<open>for (int i = str.length(); i > 0; i -= 16)\<close>, one word per chunk of 16 characters.\<close>

function parse_chunks :: "string \<Rightarrow> int \<Rightarrow> uint64 list \<Rightarrow> error + uint64 list" where
  "parse_chunks str i result =
     (if i > 0
      then let start = max 0 (i - 16);
               chunk = take (nat (i - start)) (drop (nat start) str)
           in case parse_chunk 0 chunk of
                Inl e \<Rightarrow> Inl e
              | Inr v \<Rightarrow> parse_chunks str (i - 16) (result @ [v])
      else Inr result)"
  by pat_completeness auto
termination
  by (relation "measure (\<lambda>(str, i, result). nat i)") auto

declare parse_chunks.simps [simp del]

definition fromHexString :: "string \<Rightarrow> error + BigNum" where
  "fromHexString hexStr =
     (if hexStr = [] then Inr (ofInt64 0)
      else let sg = (hd hexStr = CHR ''-'');
               str = (if sg then tl hexStr else hexStr);
               str = (if length str \<ge> 2 \<and> take 2 str = ''0x'' then drop 2 str else str)
           in if str = [] then Inr (ofInt64 0)
              else case parse_chunks str (int (length str)) [] of
                     Inl e \<Rightarrow> Inl e
                   | Inr result \<Rightarrow> Inr (mkBigNum result sg))"

section \<open>Extended Euclid and modular inverse\<close>

text \<open>
  The loop \<^verbatim>\<open>while (!r.isZero())\<close> of \<^verbatim>\<open>extendedGcd\<close>, on the six variables
  \<open>old_r, r, old_s, s, old_t, t\<close>.
\<close>

partial_function (option) egcd_loop ::
  "BigNum \<Rightarrow> BigNum \<Rightarrow> BigNum \<Rightarrow> BigNum \<Rightarrow> BigNum \<Rightarrow> BigNum
     \<Rightarrow> (error + BigNum \<times> BigNum \<times> BigNum) option" where
  "egcd_loop old_r r old_s s old_t t =
     (if \<not> isZero r
      then case bn_div old_r r of
             None \<Rightarrow> None
           | Some (Inl e) \<Rightarrow> throw e
           | Some (Inr q) \<Rightarrow>
               egcd_loop r (sub old_r (mul q r)) s (sub old_s (mul q s)) t (sub old_t (mul q t))
      else Some (Inr (old_r, old_s, old_t)))"

declare egcd_loop.simps [code]

definition extendedGcd :: "BigNum \<Rightarrow> BigNum \<Rightarrow> (error + BigNum \<times> BigNum \<times> BigNum) option" where
  "extendedGcd a b =
     (let old_r = (if isNegative a then neg a else a);
          r = (if isNegative b then neg b else b)
      in case egcd_loop old_r r (ofInt64 1) (ofInt64 0) (ofInt64 0) (ofInt64 1) of
           None \<Rightarrow> None
         | Some (Inl e) \<Rightarrow> throw e
         | Some (Inr (g, old_s, old_t)) \<Rightarrow>
             ok (g, if isNegative a then neg old_s else old_s,
                    if isNegative b then neg old_t else old_t))"

definition modInverse :: "BigNum \<Rightarrow> BigNum \<Rightarrow> (error + BigNum) option" where
  "modInverse a m =
     (case extendedGcd a m of
        None \<Rightarrow> None
      | Some (Inl e) \<Rightarrow> throw e
      | Some (Inr (g, s, t)) \<Rightarrow>
          if \<not> isOne g then throw NotInvertible
          else let inv = s;
                   inv = (if isNegative inv then add inv m else inv)
               in bn_mod inv m)"

section \<open>Montgomery context\<close>

record MontgomeryContext =
  mont_modulus :: BigNum
  mont_r :: BigNum
  mont_r_inv :: BigNum
  mont_n_prime :: BigNum
  mont_k :: nat

text \<open>The constructor; each of its three \<^verbatim>\<open>throw\<close>s is an \<open>InvalidModulus\<close>.\<close>

definition montgomeryContext :: "BigNum \<Rightarrow> (error + MontgomeryContext) option" where
  "montgomeryContext md =
     (if isZero md \<or> isEven md then throw InvalidModulus
      else let k = length (digits md);
               r = shl (ofInt64 1) (int (k * 64))
           in case extendedGcd r md of
                None \<Rightarrow> None
              | Some (Inl e) \<Rightarrow> throw e
              | Some (Inr (g, s, t)) \<Rightarrow>
                  if \<not> isOne g then throw InvalidModulus
                  else let r_inv = (if isNegative s then add s md else s)
                       in case extendedGcd md r of
                            None \<Rightarrow> None
                          | Some (Inl e) \<Rightarrow> throw e
                          | Some (Inr (g', s', t')) \<Rightarrow>
                              if \<not> isOne g' then throw InvalidModulus
                              else let n_prime = neg s';
                                       n_prime = (if isNegative n_prime then add n_prime r
                                                  else n_prime)
                                   in ok \<lparr>mont_modulus = md, mont_r = r, mont_r_inv = r_inv,
                                          mont_n_prime = n_prime, mont_k = k\<rparr>)"

text \<open>
  \<^verbatim>\<open>MontgomeryContext::reduce\<close> on the working array \<open>t\<close> of \<open>2k + 1\<close> words. The inner
  loop adds \<open>m * modulus\<close> at position \<open>i\<close>; the second loop propagates the carry.
\<close>

definition mont_load :: "uint64 list \<Rightarrow> nat \<Rightarrow> nat \<Rightarrow> uint64" where
  "mont_load ad k i = (if i < min (length ad) (2 * k) then ad ! i else 0)"

definition mont_inner ::
  "uint64 list \<Rightarrow> uint64 \<Rightarrow> nat \<Rightarrow> nat \<Rightarrow> uint64 list \<times> uint128 \<Rightarrow> uint64 list \<times> uint128" where
  "mont_inner mod_digits m i j st =
     (let t = fst st; carry = snd st;
          prod = u128 (u128 (t ! (i + j) + u128 (m * (mod_digits ! j))) + carry)
      in (t[i + j := u64 prod], drop_bit 64 prod))"

function mont_carry :: "nat \<Rightarrow> nat \<Rightarrow> uint128 \<Rightarrow> uint64 list \<Rightarrow> uint64 list" where
  "mont_carry k j carry t =
     (if j < 2 * k + 1 \<and> carry \<noteq> 0
      then let sum = u128 (t ! j + carry)
           in mont_carry k (j + 1) (drop_bit 64 sum) (t[j := u64 sum])
      else t)"
  by pat_completeness auto
termination
  by (relation "measure (\<lambda>(k, j, carry, t). 2 * k + 1 - j)") auto

declare mont_carry.simps [simp del]

definition mont_outer :: "MontgomeryContext \<Rightarrow> nat \<Rightarrow> uint64 list \<Rightarrow> uint64 list" where
  "mont_outer ctx i t =
     (let k = mont_k ctx;
          n_prime_digits = digits (mont_n_prime ctx);
          m = u64 (t ! i * (if n_prime_digits = [] then 0 else n_prime_digits ! 0));
          st = fold (mont_inner (digits (mont_modulus ctx)) m i) [0 ..< k] (t, 0)
      in mont_carry k (i + k) (snd st) (fst st))"

definition mont_reduce :: "MontgomeryContext \<Rightarrow> BigNum \<Rightarrow> BigNum" where
  "mont_reduce ctx a =
     (let k = mont_k ctx;
          t = map (mont_load (digits a) k) [0 ..< 2 * k + 1];
          t = fold (mont_outer ctx) [0 ..< k] t;
          result = mkBigNum (take k (drop k t)) False
      in if bn_ge result (mont_modulus ctx) then sub result (mont_modulus ctx) else result)"

definition mont_multiply :: "MontgomeryContext \<Rightarrow> BigNum \<Rightarrow> BigNum \<Rightarrow> BigNum" where
  "mont_multiply ctx a b = mont_reduce ctx (mul a b)"

definition toMontgomery :: "MontgomeryContext \<Rightarrow> BigNum \<Rightarrow> (error + BigNum) option" where
  "toMontgomery ctx a = bn_mod (mul a (mont_r ctx)) (mont_modulus ctx)"

definition fromMontgomery :: "MontgomeryContext \<Rightarrow> BigNum \<Rightarrow> BigNum" where
  "fromMontgomery ctx a = mont_reduce ctx a"

section \<open>Barrett context\<close>

record BarrettContext =
  bar_modulus :: BigNum
  bar_mu :: BigNum
  bar_k :: nat

definition barrettContext :: "BigNum \<Rightarrow> (error + BarrettContext) option" where
  "barrettContext md =
     (if isZero md then throw InvalidModulus
      else let k = bitLength md;
               r_squared = shl (ofInt64 1) (int (2 * k))
           in case bn_div r_squared md of
                None \<Rightarrow> None
              | Some (Inl e) \<Rightarrow> throw e
              | Some (Inr mu) \<Rightarrow> ok \<lparr>bar_modulus = md, bar_mu = mu, bar_k = k\<rparr>)"

text \<open>\<^verbatim>\<open>while (result >= modulus) result -= modulus;\<close>\<close>

partial_function (option) barrett_final :: "BigNum \<Rightarrow> BigNum \<Rightarrow> BigNum option" where
  "barrett_final result md =
     (if bn_ge result md then barrett_final (sub result md) md else Some result)"

declare barrett_final.simps [code]

text \<open>
  \<^verbatim>\<open>BarrettContext::reduce\<close>. The shift amount \<^verbatim>\<open>k - 1\<close> is a \<^verbatim>\<open>size_t\<close>; at \<open>k = 0\<close> it
  wraps and arrives as a negative \<^verbatim>\<open>int\<close>, which shifts by nothing, as the \<open>0\<close> of the
  truncated subtraction does here.
\<close>

definition barrett_reduce :: "BarrettContext \<Rightarrow> BigNum \<Rightarrow> (error + BigNum) option" where
  "barrett_reduce ctx a =
     (let md = bar_modulus ctx; k = bar_k ctx
      in if bn_lt a md then ok a
         else if bitLength a \<le> k then bn_mod a md
         else let q1 = shr a (int (k - 1));
                  q2 = mul q1 (bar_mu ctx);
                  q3 = shr q2 (int (k + 1));
                  r_mask = sub (shl (ofInt64 1) (int (k + 1))) (ofInt64 1);
                  r1 = bn_and a r_mask;
                  r2 = bn_and (mul q3 md) r_mask;
                  result = sub r1 r2;
                  result = (if isNegative result then add result (shl (ofInt64 1) (int (k + 1)))
                            else result)
              in case barrett_final result md of
                   None \<Rightarrow> None
                 | Some result \<Rightarrow> ok result)"

section \<open>Modular exponentiation\<close>

text \<open>
  The plain loop of \<^verbatim>\<open>modPowBinary\<close>:
  \<^verbatim>\<open>while (!exp.isZero()) { if (exp.isOdd()) result = (result * base) % modulus;
  base = (base * base) % modulus; exp >>= 1; }\<close>.
\<close>

partial_function (option) basic_loop ::
  "BigNum \<Rightarrow> BigNum \<Rightarrow> BigNum \<Rightarrow> BigNum \<Rightarrow> (error + BigNum) option" where
  "basic_loop result base exp md =
     (if \<not> isZero exp
      then case (if isOdd exp then bn_mod (mul result base) md else Some (Inr result)) of
             None \<Rightarrow> None
           | Some (Inl e) \<Rightarrow> throw e
           | Some (Inr result') \<Rightarrow>
               (case bn_mod (mul base base) md of
                  None \<Rightarrow> None
                | Some (Inl e) \<Rightarrow> throw e
                | Some (Inr base') \<Rightarrow> basic_loop result' base' (shr exp 1) md)
      else Some (Inr result))"

declare basic_loop.simps [code]

text \<open>
  The same loop with \<^verbatim>\<open>barrett.reduce\<close>, inside the \<^verbatim>\<open>try\<close> block. An exception leaves
  the block with the variables as they are at that point: \<open>Inl (result, base, exp)\<close>.
\<close>

partial_function (option) barrett_loop ::
  "BarrettContext \<Rightarrow> BigNum \<Rightarrow> BigNum \<Rightarrow> BigNum
     \<Rightarrow> ((BigNum \<times> BigNum \<times> BigNum) + BigNum) option" where
  "barrett_loop ctx result base exp =
     (if \<not> isZero exp
      then case (if isOdd exp then barrett_reduce ctx (mul result base) else Some (Inr result)) of
             None \<Rightarrow> None
           | Some (Inl e) \<Rightarrow> Some (Inl (result, base, exp))
           | Some (Inr result') \<Rightarrow>
               (case barrett_reduce ctx (mul base base) of
                  None \<Rightarrow> None
                | Some (Inl e) \<Rightarrow> Some (Inl (result', base, exp))
                | Some (Inr base') \<Rightarrow> barrett_loop ctx result' base' (shr exp 1))
      else Some (Inr result))"

declare barrett_loop.simps [code]

definition modPowBinary :: "BigNum \<Rightarrow> BigNum \<Rightarrow> BigNum \<Rightarrow> (error + BigNum) option" where
  "modPowBinary this exponent md =
     (case bn_mod this md of
        None \<Rightarrow> None
      | Some (Inl e) \<Rightarrow> throw e
      | Some (Inr base) \<Rightarrow>
          if length (digits md) \<ge> BARRETT_THRESHOLD
          then case barrettContext md of
                 None \<Rightarrow> None
               | Some (Inl e) \<Rightarrow> basic_loop (ofInt64 1) base exponent md
               | Some (Inr barrett) \<Rightarrow>
                   (case barrett_loop barrett (ofInt64 1) base exponent of
                      None \<Rightarrow> None
                    | Some (Inl (result, base', exp)) \<Rightarrow> basic_loop result base' exp md
                    | Some (Inr result) \<Rightarrow> ok result)
          else basic_loop (ofInt64 1) base exponent md)"

text \<open>The loop of \<^verbatim>\<open>modPowMontgomery\<close>, returning \<open>result_mont\<close>.\<close>

partial_function (option) mont_loop ::
  "MontgomeryContext \<Rightarrow> BigNum \<Rightarrow> BigNum \<Rightarrow> BigNum \<Rightarrow> BigNum option" where
  "mont_loop mont result_mont current_base exp =
     (if \<not> isZero exp
      then mont_loop mont
             (if isOdd exp then mont_multiply mont result_mont current_base else result_mont)
             (mont_multiply mont current_base current_base) (shr exp 1)
      else Some result_mont)"

declare mont_loop.simps [code]

text \<open>The \<^verbatim>\<open>try\<close> block of \<^verbatim>\<open>modPowMontgomery\<close>.\<close>

definition mont_try :: "BigNum \<Rightarrow> BigNum \<Rightarrow> BigNum \<Rightarrow> (error + BigNum) option" where
  "mont_try this exponent md =
     (case montgomeryContext md of
        None \<Rightarrow> None
      | Some (Inl e) \<Rightarrow> throw e
      | Some (Inr mont) \<Rightarrow>
          (case bn_mod this md of
             None \<Rightarrow> None
           | Some (Inl e) \<Rightarrow> throw e
           | Some (Inr reduced) \<Rightarrow>
               (case toMontgomery mont reduced of
                  None \<Rightarrow> None
                | Some (Inl e) \<Rightarrow> throw e
                | Some (Inr base_mont) \<Rightarrow>
                    (case toMontgomery mont (ofInt64 1) of
                       None \<Rightarrow> None
                     | Some (Inl e) \<Rightarrow> throw e
                     | Some (Inr result_mont) \<Rightarrow>
                         (case mont_loop mont result_mont base_mont exponent of
                            None \<Rightarrow> None
                          | Some result_mont' \<Rightarrow> ok (fromMontgomery mont result_mont'))))))"

text \<open>\<^verbatim>\<open>catch (const std::exception&)\<close>: any exception falls back to \<^verbatim>\<open>modPowBinary\<close>.\<close>

definition modPowMontgomery :: "BigNum \<Rightarrow> BigNum \<Rightarrow> BigNum \<Rightarrow> (error + BigNum) option" where
  "modPowMontgomery this exponent md =
     (case mont_try this exponent md of
        None \<Rightarrow> None
      | Some (Inl e) \<Rightarrow> modPowBinary this exponent md
      | Some (Inr result) \<Rightarrow> ok result)"

definition modPow :: "BigNum \<Rightarrow> BigNum \<Rightarrow> BigNum \<Rightarrow> (error + BigNum) option" where
  "modPow this exponent md =
     (if isZero md then throw InvalidModulus
      else if isZero exponent then ok one
      else if isOne md then ok zero
      else if length (digits md) \<ge> MONTGOMERY_THRESHOLD \<and> isOdd md
           then modPowMontgomery this exponent md
           else modPowBinary this exponent md)"

section \<open>The value read by \<^verbatim>\<open>toInt64\<close>\<close>

lemma mag_words_simps [simp]:
  "mag_words [] = 0"
  "mag_words (d # ds) = d + 2 ^ 64 * mag_words ds"
  by (simp_all add: mag_words_def)

lemma mag_words_pos:
  "list_all (\<lambda>d. 0 \<le> d \<and> d < 2 ^ 64) ds \<Longrightarrow> ds \<noteq> [] \<Longrightarrow> last ds \<noteq> 0 \<Longrightarrow> 1 \<le> mag_words ds"
proof (induction ds)
  case Nil
  then show ?case by simp
next
  case (Cons d ds)
  from Cons.prems(1) have d: "0 \<le> d" and rest: "list_all (\<lambda>d. 0 \<le> d \<and> d < 2 ^ 64) ds"
    by simp_all
  show ?case
  proof (cases "ds = []")
    case True
    with Cons.prems have "d \<noteq> 0" by simp
    with d have "1 \<le> d" by linarith
    with True show ?thesis by simp
  next
    case False
    with Cons rest have "1 \<le> mag_words ds" by simp
    with d have "1 \<le> d + 18446744073709551616 * mag_words ds" by linarith
    then show ?thesis by simp
  qed
qed

lemma mag_words_long:
  assumes "list_all (\<lambda>d. 0 \<le> d \<and> d < 2 ^ 64) ds" and "length ds > 1" and "last ds \<noteq> 0"
  shows "2 ^ 64 \<le> mag_words ds"
proof -
  from assms(2) obtain d ds' where ds: "ds = d # ds'" and ne: "ds' \<noteq> []"
    by (cases ds) auto
  with assms(3) have "last ds' \<noteq> 0" by simp
  moreover from assms(1) ds have d: "0 \<le> d" and "list_all (\<lambda>d. 0 \<le> d \<and> d < 2 ^ 64) ds'"
    by simp_all
  ultimately have "1 \<le> mag_words ds'" using ne by (intro mag_words_pos)
  with d have "18446744073709551616 \<le> d + 18446744073709551616 * mag_words ds'"
    by linarith
  then show ?thesis using ds by simp
qed

lemma s64_small: "- (2 ^ 63) \<le> d \<Longrightarrow> d < 2 ^ 63 \<Longrightarrow> s64 d = d"
  by (simp add: s64_def signed_take_bit_int_eq_self)

lemma s64_min: "s64 (2 ^ 63) = - (2 ^ 63)"
proof -
  have "s64 (2 ^ 63) = s64 (- (2 ^ 63) + 2 ^ 64)" by simp
  also have "\<dots> = signed_take_bit 63 (- (2 ^ 63) + 2 ^ Suc 63 * 1 :: int)"
    by (simp add: s64_def)
  also have "\<dots> = signed_take_bit 63 (- (2 ^ 63) :: int)"
    by (simp only: signed_take_bit_int_eq_self_iff signed_take_bit_eq_iff_take_bit_eq take_bit_add)
       (simp add: take_bit_eq_mod)
  also have "\<dots> = - (2 ^ 63)"
    by (simp add: signed_take_bit_int_eq_self)
  finally show ?thesis .
qed

lemma int64_max_u64:
  "u64 INT64_MAX = 2 ^ 63 - 1" "u64 (u64 INT64_MAX + 1) = 2 ^ 63" "u64 0x8000000000000000 = 0x8000000000000000"
  by (simp_all add: u64_id)


text \<open>
  \<^verbatim>\<open>toInt64\<close> on a well-formed digit vector: no defined result at \<open>-2^63\<close>, the
  represented value elsewhere in the range of \<^verbatim>\<open>int64_t\<close>, the exception outside it.
\<close>

lemma toInt64_cases:
  assumes "wf_digits a"
  shows "toInt64 a =
     (if bn_val a = - (2 ^ 63) then Undefined
      else if - (2 ^ 63) < bn_val a \<and> bn_val a \<le> 2 ^ 63 - 1 then Defined (Inr (bn_val a))
      else Defined (Inl OverflowToInt64))"
proof (cases "length (digits a) > 1")
  case True
  with assms have "last (digits a) \<noteq> 0"
    and "list_all (\<lambda>d. 0 \<le> d \<and> d < 2 ^ 64) (digits a)" by (simp_all add: wf_digits_def)
  with True have "2 ^ 64 \<le> magnitude a"
    unfolding magnitude_def by (intro mag_words_long)
  then have "\<not> (- (2 ^ 63) \<le> bn_val a \<and> bn_val a \<le> 2 ^ 63 - 1)"
    by (simp add: bn_val_def)
  moreover have "toInt64 a = Defined (Inl OverflowToInt64)" using True by (simp add: toInt64_def)
  ultimately show ?thesis by auto
next
  case False
  with assms obtain d where ds: "digits a = [d]"
    by (cases "digits a") (auto simp: wf_digits_def)
  with assms have d: "0 \<le> d" "d < 2 ^ 64" by (simp_all add: wf_digits_def)
  from ds have mag: "magnitude a = d" by (simp add: magnitude_def)
  show ?thesis
  proof (cases "d = 0")
    case True
    then show ?thesis using ds mag by (simp add: toInt64_def isZero_def bn_val_def)
  next
    case nz: False
    with d have pos: "0 < d" by simp
    show ?thesis
    proof (cases "negative a")
      case False
      then have v: "bn_val a = d" using mag by (simp add: bn_val_def)
      show ?thesis
      proof (cases "d > 2 ^ 63 - 1")
        case True
        then show ?thesis using ds nz False v
          by (simp add: toInt64_def isZero_def isNegative_def int64_max_u64)
      next
        case le: False
        then have "s64 d = d" using d by (intro s64_small) simp_all
        then show ?thesis using ds nz False v le pos
          by (simp add: toInt64_def isZero_def isNegative_def int64_max_u64)
      qed
    next
      case True
      then have v: "bn_val a = - d" using mag by (simp add: bn_val_def)
      consider "d > 2 ^ 63" | "d = 2 ^ 63" | "d < 2 ^ 63" by linarith
      then show ?thesis
      proof cases
        case 1
        then show ?thesis using ds nz True v
          by (simp add: toInt64_def isZero_def isNegative_def int64_max_u64 Let_def)
      next
        case 2
        then have "neg_int64 (s64 d) = Undefined"
          using s64_min by (simp add: neg_int64_def)
        then show ?thesis using ds nz True v 2
          by (simp add: toInt64_def isZero_def isNegative_def int64_max_u64 Let_def)
      next
        case 3
        then have "s64 d = d" using pos by (intro s64_small) simp_all
        then have "neg_int64 (s64 d) = Defined (- d)"
          using pos by (simp add: neg_int64_def)
        then show ?thesis using ds nz True v 3 pos
          by (simp add: toInt64_def isZero_def isNegative_def int64_max_u64 Let_def)
      qed
    qed
  qed
qed


section \<open>The strings accepted by \<^verbatim>\<open>fromHexString\<close>\<close>

text \<open>The characters \<^verbatim>\<open>fromHexString\<close> takes as digits.\<close>

definition is_hex_digit :: "char \<Rightarrow> bool" where
  "is_hex_digit c \<longleftrightarrow>
     in_range CHR ''0'' CHR ''9'' c \<or> in_range CHR ''a'' CHR ''f'' c \<or> in_range CHR ''A'' CHR ''F'' c"

text \<open>The string after an optional leading \<open>-\<close>.\<close>

definition strip_sign :: "string \<Rightarrow> string" where
  "strip_sign s = (if s \<noteq> [] \<and> hd s = CHR ''-'' then tl s else s)"

text \<open>
  The format as the specification words it: an optional \<open>-\<close>, an optional \<open>0x\<close> or \<open>0X\<close>,
  then one or more hex digits. \<open>spec_digit_part\<close> is what follows the sign and the prefix.
\<close>

definition spec_digit_part :: "string \<Rightarrow> string" where
  "spec_digit_part s =
     (let s1 = strip_sign s
      in if take 2 s1 = ''0x'' \<or> take 2 s1 = ''0X'' then drop 2 s1 else s1)"

definition spec_hex_format :: "string \<Rightarrow> bool" where
  "spec_hex_format s \<longleftrightarrow> spec_digit_part s \<noteq> [] \<and> list_all is_hex_digit (spec_digit_part s)"

text \<open>The same format with zero or more hex digits in place of one or more.\<close>

definition relaxed_hex_format :: "string \<Rightarrow> bool" where
  "relaxed_hex_format s \<longleftrightarrow> list_all is_hex_digit (spec_digit_part s)"

text \<open>A string with the upper-case prefix after its optional sign.\<close>

definition upper_prefix :: "string \<Rightarrow> bool" where
  "upper_prefix s \<longleftrightarrow> take 2 (strip_sign s) = ''0X''"

text \<open>
  The strings the code takes: an optional \<open>-\<close>, an optional lower-case \<open>0x\<close>, then any
  number of hex digits, none included.
\<close>

definition accepted_hex :: "string \<Rightarrow> bool" where
  "accepted_hex s =
     (let s1 = strip_sign s;
          s2 = (if take 2 s1 = ''0x'' then drop 2 s1 else s1)
      in list_all is_hex_digit s2)"

lemma hex_char_cases:
  "hex_char v c = (if is_hex_digit c then Inr (projr (hex_char v c)) else Inl InvalidHex)"
  by (simp add: hex_char_def is_hex_digit_def Let_def)

lemma parse_chunk_ok: "list_all is_hex_digit cs \<Longrightarrow> \<exists>v'. parse_chunk v cs = Inr v'"
proof (induction cs arbitrary: v)
  case Nil
  then show ?case by simp
next
  case (Cons c cs)
  then have "is_hex_digit c" and rest: "list_all is_hex_digit cs" by simp_all
  then obtain v1 where "hex_char v c = Inr v1" using hex_char_cases [of v c] by auto
  then show ?case using Cons.IH [OF rest, of v1] by simp
qed

lemma parse_chunk_bad: "\<not> list_all is_hex_digit cs \<Longrightarrow> parse_chunk v cs = Inl InvalidHex"
proof (induction cs arbitrary: v)
  case Nil
  then show ?case by simp
next
  case (Cons c cs)
  show ?case
  proof (cases "is_hex_digit c")
    case True
    with Cons.prems have rest: "\<not> list_all is_hex_digit cs" by simp
    from True obtain v1 where "hex_char v c = Inr v1" using hex_char_cases [of v c] by auto
    then show ?thesis using Cons.IH [OF rest, of v1] by simp
  next
    case False
    then have "hex_char v c = Inl InvalidHex" using hex_char_cases [of v c] by simp
    then show ?thesis by simp
  qed
qed

lemma take_split_chunk:
  assumes "0 < i" and "i \<le> int (length str)"
  shows "take (nat i) str
           = take (nat (i - 16)) str @ take (nat (i - max 0 (i - 16))) (drop (nat (max 0 (i - 16))) str)"
proof -
  let ?start = "max 0 (i - 16)"
  have s: "nat (i - 16) = nat ?start" by simp
  have "nat i = nat ?start + nat (i - ?start)" using assms(1) by simp
  then have "take (nat i) str = take (nat ?start) str @ take (nat (i - ?start)) (drop (nat ?start) str)"
    by (simp only: take_add)
  then show ?thesis by (simp only: s)
qed

lemma parse_chunks_result:
  "i \<le> int (length str) \<Longrightarrow>
   (list_all is_hex_digit (take (nat i) str) \<longrightarrow> (\<exists>r. parse_chunks str i res = Inr r)) \<and>
   (\<not> list_all is_hex_digit (take (nat i) str) \<longrightarrow> parse_chunks str i res = Inl InvalidHex)"
proof (induction str i res rule: parse_chunks.induct)
  case (1 str i result)
  show ?case
  proof (cases "i > 0")
    case False
    then show ?thesis by (subst parse_chunks.simps, subst (2) parse_chunks.simps) simp
  next
    case True
    let ?start = "max 0 (i - 16)"
    let ?chunk = "take (nat (i - ?start)) (drop (nat ?start) str)"
    have split: "take (nat i) str = take (nat (i - 16)) str @ ?chunk"
      using True "1.prems" by (rule take_split_chunk)
    have unfold: "parse_chunks str i result =
        (case parse_chunk 0 ?chunk of Inl e \<Rightarrow> Inl e
         | Inr v \<Rightarrow> parse_chunks str (i - 16) (result @ [v]))"
      using True by (subst parse_chunks.simps) (simp add: Let_def)
    show ?thesis
    proof (cases "list_all is_hex_digit ?chunk")
      case bad: False
      then have "parse_chunk 0 ?chunk = Inl InvalidHex" by (rule parse_chunk_bad)
      moreover have "\<not> list_all is_hex_digit (take (nat i) str)"
        using bad by (subst split) simp
      ultimately show ?thesis using unfold by simp
    next
      case good: True
      then obtain v where v: "parse_chunk 0 ?chunk = Inr v"
        using parse_chunk_ok by blast
      have le: "i - 16 \<le> int (length str)" using "1.prems" by simp
      have IH: "(list_all is_hex_digit (take (nat (i - 16)) str)
                   \<longrightarrow> (\<exists>r. parse_chunks str (i - 16) (result @ [v]) = Inr r)) \<and>
                (\<not> list_all is_hex_digit (take (nat (i - 16)) str)
                   \<longrightarrow> parse_chunks str (i - 16) (result @ [v]) = Inl InvalidHex)"
        using "1.IH" [OF True refl refl v le] .
      have "list_all is_hex_digit (take (nat i) str)
              \<longleftrightarrow> list_all is_hex_digit (take (nat (i - 16)) str)"
        using good by (subst split) simp
      then show ?thesis using IH unfold v by simp
    qed
  qed
qed

lemma prefix_0x_length: "(length xs \<ge> 2 \<and> take 2 xs = ''0x'') \<longleftrightarrow> take 2 xs = ''0x''"
proof -
  have "length xs \<ge> 2" if "take 2 xs = ''0x''"
  proof -
    from that have "length (take 2 xs) = 2" by simp
    then show ?thesis by simp
  qed
  then show ?thesis by blast
qed

lemma fromHexString_unfold:
  assumes "s \<noteq> []"
  defines "s2 \<equiv> (if take 2 (strip_sign s) = ''0x'' then drop 2 (strip_sign s) else strip_sign s)"
  shows "fromHexString s =
      (if s2 = [] then Inr (ofInt64 0)
       else case parse_chunks s2 (int (length s2)) [] of
              Inl e \<Rightarrow> Inl e
            | Inr result \<Rightarrow> Inr (mkBigNum result (hd s = CHR ''-'')))"
proof -
  have sign: "(if hd s = CHR ''-'' then tl s else s) = strip_sign s"
    using assms(1) by (simp add: strip_sign_def)
  show ?thesis
    unfolding fromHexString_def Let_def sign prefix_0x_length s2_def
    using assms(1) by simp
qed

lemma fromHexString_cases:
  "(accepted_hex s \<longrightarrow> (\<exists>v. fromHexString s = Inr v)) \<and>
   (\<not> accepted_hex s \<longrightarrow> fromHexString s = Inl InvalidHex)"
proof (cases "s = []")
  case True
  then show ?thesis by (simp add: fromHexString_def accepted_hex_def strip_sign_def)
next
  case False
  define s2 where "s2 = (if take 2 (strip_sign s) = ''0x'' then drop 2 (strip_sign s) else strip_sign s)"
  have acc: "accepted_hex s \<longleftrightarrow> list_all is_hex_digit s2"
    by (simp add: accepted_hex_def s2_def Let_def)
  note unfold = fromHexString_unfold [OF False, folded s2_def]
  show ?thesis
  proof (cases "s2 = []")
    case True
    then show ?thesis using unfold acc by simp
  next
    case ne: False
    have "(list_all is_hex_digit s2 \<longrightarrow> (\<exists>r. parse_chunks s2 (int (length s2)) [] = Inr r)) \<and>
          (\<not> list_all is_hex_digit s2 \<longrightarrow> parse_chunks s2 (int (length s2)) [] = Inl InvalidHex)"
      using parse_chunks_result [of "int (length s2)" s2 "[]"] by simp
    then show ?thesis using unfold acc ne by auto
  qed
qed


text \<open>An empty digit part is read as zero.\<close>

lemma fromHexString_empty_digits:
  assumes "(if take 2 (strip_sign s) = ''0x'' then drop 2 (strip_sign s) else strip_sign s) = []"
  shows "fromHexString s = Inr \<lparr>digits = [0], negative = False\<rparr>"
proof -
  have z: "ofInt64 0 = \<lparr>digits = [0], negative = False\<rparr>"
    by (simp add: ofInt64_def u64_def)
  show ?thesis
  proof (cases "s = []")
    case True
    then show ?thesis using z by (simp add: fromHexString_def)
  next
    case False
    from fromHexString_unfold [OF False] assms z show ?thesis by simp
  qed
qed

text \<open>
  Without the upper-case prefix the digit part of the specification's format is the one
  the code parses.
\<close>

lemma relaxed_is_accepted: "\<not> upper_prefix s \<Longrightarrow> relaxed_hex_format s \<longleftrightarrow> accepted_hex s"
  by (simp add: upper_prefix_def relaxed_hex_format_def spec_digit_part_def accepted_hex_def Let_def)

text \<open>
  With the upper-case prefix the code fails: only \<open>0x\<close> is removed, and \<open>X\<close> is then met
  as a digit.
\<close>

lemma fromHexString_upper_prefix:
  assumes "upper_prefix s"
  shows "fromHexString s = Inl InvalidHex"
proof -
  from assms have t: "take 2 (strip_sign s) = ''0X''" by (simp add: upper_prefix_def)
  then obtain r where r: "strip_sign s = CHR ''0'' # CHR ''X'' # r"
    by (cases "strip_sign s"; cases "tl (strip_sign s)") auto
  have "\<not> is_hex_digit CHR ''X''"
    by (simp add: is_hex_digit_def in_range_def)
  with r have "\<not> accepted_hex s"
    by (simp add: accepted_hex_def Let_def)
  then show ?thesis using fromHexString_cases [of s] by simp
qed


section \<open>Exceptions of \<^verbatim>\<open>modPow\<close>\<close>

text \<open>
  The only exception \<^verbatim>\<open>divideUnsigned\<close> throws is the one for a zero divisor, so with a
  nonzero modulus no reduction inside the exponentiation loops throws.
\<close>

lemma divideUnsigned_error: "divideUnsigned a b = Some (Inl e) \<Longrightarrow> isZero b"
  by (auto simp: divideUnsigned_def ok_def throw_def split: if_splits option.splits prod.splits)

lemma bn_mod_error: "bn_mod a b = Some (Inl e) \<Longrightarrow> isZero b"
  by (auto simp: bn_mod_def ok_def throw_def split: option.splits sum.splits prod.splits
           dest: divideUnsigned_error)

lemma basic_loop_error_aux:
  assumes "basic_loop result base exp md = Some y"
  shows "(\<exists>e. y = Inl e) \<longrightarrow> isZero md"
  by (rule basic_loop.raw_induct
        [where P = "\<lambda>r b x m y. (\<exists>e. y = Inl e) \<longrightarrow> isZero m", rotated -1, OF assms])
     (auto simp: throw_def split: if_splits option.splits sum.splits dest: bn_mod_error)

lemma basic_loop_error: "basic_loop result base exp md = Some (Inl e) \<Longrightarrow> isZero md"
  using basic_loop_error_aux by blast

lemma modPowBinary_error: "modPowBinary this exponent md = Some (Inl e) \<Longrightarrow> isZero md"
  by (auto simp: modPowBinary_def ok_def throw_def split: if_splits option.splits sum.splits prod.splits
           dest: bn_mod_error basic_loop_error)

lemma modPowMontgomery_error:
  "modPowMontgomery this exponent md = Some (Inl e) \<Longrightarrow> isZero md"
  by (auto simp: modPowMontgomery_def ok_def throw_def split: option.splits sum.splits
           dest: modPowBinary_error)


section \<open>A Montgomery context\<close>

text \<open>
  The context the constructor builds for the four-word modulus \<open>[5, 5, 5, 2^64 - 2]\<close>:
  \<open>R = 2^256\<close>, and the two results of \<^verbatim>\<open>extendedGcd\<close>.
\<close>

lemma montgomeryContext_example:
  "montgomeryContext \<lparr>digits = [5, 5, 5, 0xFFFFFFFFFFFFFFFE], negative = False\<rparr>
     = ok \<lparr>mont_modulus = \<lparr>digits = [5, 5, 5, 0xFFFFFFFFFFFFFFFE], negative = False\<rparr>,
         mont_r = \<lparr>digits = [0, 0, 0, 0, 1], negative = False\<rparr>,
         mont_r_inv = \<lparr>digits = [0x9999999999999998, 0x6666666666666665,
                                 0xD70A3D70A3D70A3E, 0x147AE147AE147AE0], negative = False\<rparr>,
         mont_n_prime = \<lparr>digits = [0x3333333333333333, 0, 0, 0x147AE147AE147AE1],
                                   negative = False\<rparr>,
         mont_k = 4\<rparr>"
  by code_simp


section \<open>Claims\<close>

text \<open>
  C1. Every public operation returns a canonical \<open>BigNum\<close>; in particular adding values
  of opposite sign and equal magnitude never gives a negative zero. The code does not:
  \<^verbatim>\<open>operator+\<close> assigns the sign of the left operand to the difference of the magnitudes
  after that difference has been normalised, and does not normalise again (as
  \<^verbatim>\<open>operator*\<close>, \<^verbatim>\<open>operator/\<close> and \<^verbatim>\<open>operator%\<close> do). \<open>(-5) + 5\<close> is a zero with
  the sign flag set.
\<close>

theorem add_returns_negative_zero:
  "canonical \<lparr>digits = [5], negative = True\<rparr> \<and>
   canonical \<lparr>digits = [5], negative = False\<rparr> \<and>
   add \<lparr>digits = [5], negative = True\<rparr> \<lparr>digits = [5], negative = False\<rparr>
     = \<lparr>digits = [0], negative = True\<rparr> \<and>
   \<not> canonical (add \<lparr>digits = [5], negative = True\<rparr> \<lparr>digits = [5], negative = False\<rparr>)"
  by code_simp

text \<open>
  C2. For \<open>b \<noteq> 0\<close>, also with negative operands, \<open>a = (a/b) * b + a%b\<close> with
  \<open>|a%b| < |b|\<close>. The code does not: \<^verbatim>\<open>divideUnsigned\<close> decides \<open>|a| < |b|\<close> with the
  signed \<^verbatim>\<open>compare\<close>, so a negative dividend is smaller than any positive divisor and
  is returned whole as the remainder: \<open>(-7) / 2 = 0\<close> and \<open>(-7) % 2 = -7\<close>. With
  non-negative operands the borrow that \<^verbatim>\<open>subtractUnsigned\<close> loses breaks the identity
  as well: \<open>2^128\<close> divided by \<open>2^128 - 2^64 + 1\<close> gives quotient \<open>1\<close> and remainder
  \<open>2^128 + 2^64 - 1\<close>.
\<close>

theorem division_remainder_not_reduced:
  "bn_div (ofInt64 (- 7)) (ofInt64 2) = ok \<lparr>digits = [0], negative = False\<rparr> \<and>
   bn_mod (ofInt64 (- 7)) (ofInt64 2) = ok \<lparr>digits = [7], negative = True\<rparr> \<and>
   \<not> magnitude \<lparr>digits = [7], negative = True\<rparr> < magnitude (ofInt64 2) \<and>
   bn_div \<lparr>digits = [0, 0, 1], negative = False\<rparr>
          \<lparr>digits = [1, 0xFFFFFFFFFFFFFFFF], negative = False\<rparr>
     = ok \<lparr>digits = [1], negative = False\<rparr> \<and>
   bn_mod \<lparr>digits = [0, 0, 1], negative = False\<rparr>
          \<lparr>digits = [1, 0xFFFFFFFFFFFFFFFF], negative = False\<rparr>
     = ok \<lparr>digits = [0xFFFFFFFFFFFFFFFF, 0, 1], negative = False\<rparr>"
  by code_simp

text \<open>
  C3. For every base, also a negative one, and every nonzero modulus \<open>N\<close>, \<^verbatim>\<open>modPow\<close>
  returns a value in \<open>[0, N)\<close>. The code does not: the base is reduced with
  \<^verbatim>\<open>*this % modulus\<close>, and \<^verbatim>\<open>divideUnsigned\<close> returns a negative dividend whole as the
  remainder (its test \<^verbatim>\<open>compare(divisor) < 0\<close> is the signed comparison). With base \<open>-7\<close>,
  exponent \<open>1\<close> and modulus \<open>5\<close> the result is \<open>-7\<close>, where \<open>(-7)^1 mod 5 = 3\<close>.
\<close>

theorem modPow_negative_base:
  "\<not> isZero (ofInt64 5) \<and>
   modPow (ofInt64 (- 7)) (ofInt64 1) (ofInt64 5) = ok \<lparr>digits = [7], negative = True\<rparr> \<and>
   isNegative \<lparr>digits = [7], negative = True\<rparr>"
  by code_simp

text \<open>
  C4. \<^verbatim>\<open>modPow\<close> fails with \<open>InvalidModulus\<close> exactly when the modulus is zero; with a
  nonzero modulus it returns \<open>1\<close> whenever the exponent is \<open>0\<close> and \<open>0\<close> whenever the
  modulus is \<open>1\<close>. The two rules disagree at exponent \<open>0\<close> and modulus \<open>1\<close>, where the code
  tests the exponent first and returns \<open>1\<close>, not \<open>0\<close>.
\<close>

theorem modPow_exponent_zero_modulus_one:
  "\<not> isZero (ofInt64 1) \<and> isOne (ofInt64 1) \<and> isZero (ofInt64 0) \<and>
   modPow (ofInt64 2) (ofInt64 0) (ofInt64 1) = ok \<lparr>digits = [1], negative = False\<rparr> \<and>
   modPow (ofInt64 2) (ofInt64 0) (ofInt64 1) \<noteq> ok zero"
  by code_simp

text \<open>
  C4, as the code has it: \<^verbatim>\<open>modPow\<close> fails with \<open>InvalidModulus\<close> exactly when the
  modulus is zero; with a nonzero modulus it returns \<open>1\<close> whenever the exponent is \<open>0\<close>,
  and returns \<open>0\<close> whenever the modulus is \<open>1\<close> and the exponent is not \<open>0\<close>.
\<close>

theorem modPow_guards:
  "(modPow b e N = Some (Inl InvalidModulus) \<longleftrightarrow> isZero N) \<and>
   (\<not> isZero N \<and> isZero e \<longrightarrow> modPow b e N = ok one) \<and>
   (\<not> isZero N \<and> \<not> isZero e \<and> isOne N \<longrightarrow> modPow b e N = ok zero)"
proof -
  have "isZero N" if "modPow b e N = Some (Inl InvalidModulus)"
    using that
    by (auto simp: modPow_def ok_def throw_def split: if_splits
             dest: modPowBinary_error modPowMontgomery_error)
  then show ?thesis by (auto simp: modPow_def throw_def)
qed

theorem modPow_guards_witness:
  "\<not> isZero (ofInt64 1) \<and> \<not> isZero (ofInt64 3) \<and> isOne (ofInt64 1) \<and>
   modPow (ofInt64 2) (ofInt64 3) (ofInt64 1) = ok zero \<and>
   isZero (ofInt64 0) \<and> \<not> isZero (ofInt64 5) \<and>
   modPow (ofInt64 2) (ofInt64 0) (ofInt64 5) = ok one \<and>
   modPow (ofInt64 2) (ofInt64 3) (ofInt64 0) = Some (Inl InvalidModulus)"
proof -
  have a: "\<not> isZero (ofInt64 1)" "\<not> isZero (ofInt64 3)" "isOne (ofInt64 1)"
    "isZero (ofInt64 0)" "\<not> isZero (ofInt64 5)"
    by code_simp+
  show ?thesis
    using a modPow_guards [of "ofInt64 2" "ofInt64 3" "ofInt64 1"]
      modPow_guards [of "ofInt64 2" "ofInt64 0" "ofInt64 5"]
      modPow_guards [of "ofInt64 2" "ofInt64 3" "ofInt64 0"]
    by simp
qed

text \<open>
  C5. For the same base, exponent and nonzero modulus the Montgomery path and the plain
  path of \<^verbatim>\<open>modPow\<close> return the same value. The code does not:
  \<^verbatim>\<open>MontgomeryContext::reduce\<close> works on an array of \<open>2k + 1\<close> words and returns the words
  \<open>k\<close> to \<open>2k - 1\<close>, so a carry into the last word is dropped. For the odd four-word
  modulus \<open>N = [5, 5, 5, 2^64 - 2]\<close>, base \<open>2^64 - 1\<close> and exponent \<open>2\<close>, \<^verbatim>\<open>modPow\<close> takes the
  Montgomery path. The constructor and \<^verbatim>\<open>toMontgomery\<close> give the context and the base
  below; in the first squaring the working array ends with the word \<open>1\<close>, which
  \<^verbatim>\<open>reduce\<close> leaves out. \<^verbatim>\<open>modPow\<close> returns \<open>2^128 - 2^65\<close>; the plain loop of
  \<^verbatim>\<open>modPowBinary\<close> returns the square \<open>2^128 - 2^65 + 1\<close>, which is below \<open>N\<close>.
\<close>

theorem modPow_montgomery_differs_from_plain:
  "\<not> isZero \<lparr>digits = [5, 5, 5, 0xFFFFFFFFFFFFFFFE], negative = False\<rparr> \<and>
   canonical \<lparr>digits = [5, 5, 5, 0xFFFFFFFFFFFFFFFE], negative = False\<rparr> \<and>
   montgomeryContext \<lparr>digits = [5, 5, 5, 0xFFFFFFFFFFFFFFFE], negative = False\<rparr>
     = ok \<lparr>mont_modulus = \<lparr>digits = [5, 5, 5, 0xFFFFFFFFFFFFFFFE], negative = False\<rparr>,
         mont_r = \<lparr>digits = [0, 0, 0, 0, 1], negative = False\<rparr>,
         mont_r_inv = \<lparr>digits = [0x9999999999999998, 0x6666666666666665,
                                 0xD70A3D70A3D70A3E, 0x147AE147AE147AE0], negative = False\<rparr>,
         mont_n_prime = \<lparr>digits = [0x3333333333333333, 0, 0, 0x147AE147AE147AE1],
                                   negative = False\<rparr>,
         mont_k = 4\<rparr> \<and>
   toMontgomery \<lparr>mont_modulus = \<lparr>digits = [5, 5, 5, 0xFFFFFFFFFFFFFFFE], negative = False\<rparr>,
         mont_r = \<lparr>digits = [0, 0, 0, 0, 1], negative = False\<rparr>,
         mont_r_inv = \<lparr>digits = [0x9999999999999998, 0x6666666666666665,
                                 0xD70A3D70A3D70A3E, 0x147AE147AE147AE0], negative = False\<rparr>,
         mont_n_prime = \<lparr>digits = [0x3333333333333333, 0, 0, 0x147AE147AE147AE1],
                                   negative = False\<rparr>,
         mont_k = 4\<rparr>
       \<lparr>digits = [0xFFFFFFFFFFFFFFFF], negative = False\<rparr>
     = ok \<lparr>digits = [0, 0xFFFFFFFFFFFFFFFB, 0xFFFFFFFFFFFFFFFA, 0xFFFFFFFFFFFFFFFA], negative = False\<rparr> \<and>
   fold (mont_outer \<lparr>mont_modulus = \<lparr>digits = [5, 5, 5, 0xFFFFFFFFFFFFFFFE], negative = False\<rparr>,
         mont_r = \<lparr>digits = [0, 0, 0, 0, 1], negative = False\<rparr>,
         mont_r_inv = \<lparr>digits = [0x9999999999999998, 0x6666666666666665,
                                 0xD70A3D70A3D70A3E, 0x147AE147AE147AE0], negative = False\<rparr>,
         mont_n_prime = \<lparr>digits = [0x3333333333333333, 0, 0, 0x147AE147AE147AE1],
                                   negative = False\<rparr>,
         mont_k = 4\<rparr>) [0 ..< 4]
     (map (mont_load (digits (mul \<lparr>digits = [0, 0xFFFFFFFFFFFFFFFB, 0xFFFFFFFFFFFFFFFA, 0xFFFFFFFFFFFFFFFA], negative = False\<rparr>
                                  \<lparr>digits = [0, 0xFFFFFFFFFFFFFFFB, 0xFFFFFFFFFFFFFFFA, 0xFFFFFFFFFFFFFFFA], negative = False\<rparr>)) 4) [0 ..< 9])
     = [0, 0, 0, 0, 30, 30, 25, 0xFFFFFFFFFFFFFFEF, 1] \<and>
   modPow \<lparr>digits = [0xFFFFFFFFFFFFFFFF], negative = False\<rparr> \<lparr>digits = [2], negative = False\<rparr>
          \<lparr>digits = [5, 5, 5, 0xFFFFFFFFFFFFFFFE], negative = False\<rparr>
     = modPowMontgomery \<lparr>digits = [0xFFFFFFFFFFFFFFFF], negative = False\<rparr> \<lparr>digits = [2], negative = False\<rparr>
          \<lparr>digits = [5, 5, 5, 0xFFFFFFFFFFFFFFFE], negative = False\<rparr> \<and>
   modPowMontgomery \<lparr>digits = [0xFFFFFFFFFFFFFFFF], negative = False\<rparr> \<lparr>digits = [2], negative = False\<rparr>
          \<lparr>digits = [5, 5, 5, 0xFFFFFFFFFFFFFFFE], negative = False\<rparr>
     = ok \<lparr>digits = [0, 0xFFFFFFFFFFFFFFFE], negative = False\<rparr> \<and>
   modPowBinary \<lparr>digits = [0xFFFFFFFFFFFFFFFF], negative = False\<rparr> \<lparr>digits = [2], negative = False\<rparr>
          \<lparr>digits = [5, 5, 5, 0xFFFFFFFFFFFFFFFE], negative = False\<rparr>
     = ok \<lparr>digits = [1, 0xFFFFFFFFFFFFFFFE], negative = False\<rparr>"
proof -
  let ?b = "\<lparr>digits = [0xFFFFFFFFFFFFFFFF], negative = False\<rparr>"
  let ?e = "\<lparr>digits = [2], negative = False\<rparr>"
  let ?N = "\<lparr>digits = [5, 5, 5, 0xFFFFFFFFFFFFFFFE], negative = False\<rparr>"
  let ?C = "\<lparr>mont_modulus = \<lparr>digits = [5, 5, 5, 0xFFFFFFFFFFFFFFFE], negative = False\<rparr>,
         mont_r = \<lparr>digits = [0, 0, 0, 0, 1], negative = False\<rparr>,
         mont_r_inv = \<lparr>digits = [0x9999999999999998, 0x6666666666666665,
                                 0xD70A3D70A3D70A3E, 0x147AE147AE147AE0], negative = False\<rparr>,
         mont_n_prime = \<lparr>digits = [0x3333333333333333, 0, 0, 0x147AE147AE147AE1],
                                   negative = False\<rparr>,
         mont_k = 4\<rparr>"
  let ?bm = "\<lparr>digits = [0, 0xFFFFFFFFFFFFFFFB, 0xFFFFFFFFFFFFFFFA, 0xFFFFFFFFFFFFFFFA], negative = False\<rparr>"
  have z: "\<not> isZero ?N" "canonical ?N"
    by code_simp+
  have t: "toMontgomery ?C ?b = ok ?bm"
    by code_simp
  have a: "fold (mont_outer ?C) [0 ..< 4] (map (mont_load (digits (mul ?bm ?bm)) 4) [0 ..< 9])
             = [0, 0, 0, 0, 30, 30, 25, 0xFFFFFFFFFFFFFFEF, 1]"
    by code_simp
  have p: "modPow ?b ?e ?N = modPowMontgomery ?b ?e ?N"
    by (simp add: modPow_def isZero_def isOne_def isOdd_def)
  have m: "modPowMontgomery ?b ?e ?N = ok \<lparr>digits = [0, 0xFFFFFFFFFFFFFFFE], negative = False\<rparr>"
    unfolding modPowMontgomery_def mont_try_def montgomeryContext_example
    by code_simp
  have b: "modPowBinary ?b ?e ?N = ok \<lparr>digits = [1, 0xFFFFFFFFFFFFFFFE], negative = False\<rparr>"
    by code_simp
  show ?thesis
    by (intro conjI z montgomeryContext_example t a p m b)
qed

text \<open>
  C6. Karatsuba multiplication returns the same product as schoolbook multiplication. The
  code does not: the middle term \<open>z1 = (a1 + a0) * (b1 + b0) - z2 - z0\<close> is computed with
  \<^verbatim>\<open>subtractUnsigned\<close>, whose test \<^verbatim>\<open>ai >= bi + borrow\<close> wraps to \<open>ai >= 0\<close> when \<open>bi\<close> is
  the maximal word and a borrow is pending, so the borrow is lost. For
  \<open>a = [0, 0, 1, 1, 0, 0, 1, 1]\<close> and \<open>b = [2^64 - 1]\<close> the product has a spurious ninth
  word.
\<close>

theorem karatsuba_differs_from_schoolbook:
  "multiplySchoolbook \<lparr>digits = [0, 0, 1, 1, 0, 0, 1, 1], negative = False\<rparr>
                      \<lparr>digits = [0xFFFFFFFFFFFFFFFF], negative = False\<rparr>
     = \<lparr>digits = [0, 0, 0xFFFFFFFFFFFFFFFF, 0xFFFFFFFFFFFFFFFF,
                   0, 0, 0xFFFFFFFFFFFFFFFF, 0xFFFFFFFFFFFFFFFF], negative = False\<rparr> \<and>
   multiplyKaratsuba \<lparr>digits = [0, 0, 1, 1, 0, 0, 1, 1], negative = False\<rparr>
                     \<lparr>digits = [0xFFFFFFFFFFFFFFFF], negative = False\<rparr>
     = \<lparr>digits = [0, 0, 0xFFFFFFFFFFFFFFFF, 0xFFFFFFFFFFFFFFFF,
                   0, 0, 0xFFFFFFFFFFFFFFFF, 0xFFFFFFFFFFFFFFFF, 1], negative = False\<rparr>"
  by code_simp

text \<open>
  C7. \<^verbatim>\<open>modInverse\<close> fails with \<open>NotInvertible\<close> exactly when \<open>gcd(a, n) \<noteq> 1\<close>. The code
  does not: for \<open>a = 3 * 2^128 - 2\<close> and \<open>n = 2^129 - 1\<close>, which are coprime, the first
  step of \<^verbatim>\<open>extendedGcd\<close> computes \<open>a - 1 * n\<close> with \<^verbatim>\<open>subtractUnsigned\<close>, which loses the
  borrow at the second word (\<^verbatim>\<open>bi + borrow\<close> wraps to \<open>0\<close>) and returns \<open>n\<close> instead of
  \<open>2^128 - 1\<close>; the next remainder is \<open>0\<close>, the computed gcd is \<open>n\<close>, and the call throws.
\<close>

theorem modInverse_rejects_coprime:
  "canonical \<lparr>digits = [0xFFFFFFFFFFFFFFFE, 0xFFFFFFFFFFFFFFFF, 2], negative = False\<rparr> \<and>
   canonical \<lparr>digits = [0xFFFFFFFFFFFFFFFF, 0xFFFFFFFFFFFFFFFF, 1], negative = False\<rparr> \<and>
   bn_val \<lparr>digits = [0xFFFFFFFFFFFFFFFE, 0xFFFFFFFFFFFFFFFF, 2], negative = False\<rparr>
     = 3 * 2 ^ 128 - 2 \<and>
   bn_val \<lparr>digits = [0xFFFFFFFFFFFFFFFF, 0xFFFFFFFFFFFFFFFF, 1], negative = False\<rparr>
     = 2 ^ 129 - 1 \<and>
   gcd (3 * 2 ^ 128 - 2 :: int) (2 ^ 129 - 1) = 1 \<and>
   sub \<lparr>digits = [0xFFFFFFFFFFFFFFFE, 0xFFFFFFFFFFFFFFFF, 2], negative = False\<rparr>
       \<lparr>digits = [0xFFFFFFFFFFFFFFFF, 0xFFFFFFFFFFFFFFFF, 1], negative = False\<rparr>
     = \<lparr>digits = [0xFFFFFFFFFFFFFFFF, 0xFFFFFFFFFFFFFFFF, 1], negative = False\<rparr> \<and>
   modInverse \<lparr>digits = [0xFFFFFFFFFFFFFFFE, 0xFFFFFFFFFFFFFFFF, 2], negative = False\<rparr>
              \<lparr>digits = [0xFFFFFFFFFFFFFFFF, 0xFFFFFFFFFFFFFFFF, 1], negative = False\<rparr>
     = Some (Inl NotInvertible)"
proof -
  let ?a = "\<lparr>digits = [0xFFFFFFFFFFFFFFFE, 0xFFFFFFFFFFFFFFFF, 2], negative = False\<rparr>"
  let ?n = "\<lparr>digits = [0xFFFFFFFFFFFFFFFF, 0xFFFFFFFFFFFFFFFF, 1], negative = False\<rparr>"
  have c: "canonical ?a" "canonical ?n"
    by code_simp+
  have v: "bn_val ?a = 3 * 2 ^ 128 - 2" "bn_val ?n = 2 ^ 129 - 1"
    by (simp_all add: bn_val_def magnitude_def)
  have g: "gcd (3 * 2 ^ 128 - 2 :: int) (2 ^ 129 - 1) = 1"
    by code_simp
  have s: "sub ?a ?n = ?n"
    by code_simp
  have m: "modInverse ?a ?n = Some (Inl NotInvertible)"
    by code_simp
  show ?thesis
    by (intro conjI c v g s m)
qed

text \<open>
  C8. \<^verbatim>\<open>fromHexString\<close> succeeds exactly on an optional \<open>-\<close>, an optional \<open>0x\<close> or \<open>0X\<close>
  and one or more hex digits, and fails with \<open>InvalidHex\<close> on every other string, the empty
  string included. As stated this does not hold: the code returns zero on the empty string
  and on an empty digit part, each by a guard of its own.
\<close>

theorem fromHexString_not_spec_format:
  "\<not> spec_hex_format [] \<and> fromHexString [] = Inr \<lparr>digits = [0], negative = False\<rparr> \<and>
   \<not> spec_hex_format ''-'' \<and> fromHexString ''-'' = Inr \<lparr>digits = [0], negative = False\<rparr> \<and>
   \<not> spec_hex_format ''0x'' \<and> fromHexString ''0x'' = Inr \<lparr>digits = [0], negative = False\<rparr> \<and>
   \<not> spec_hex_format ''-0x'' \<and> fromHexString ''-0x'' = Inr \<lparr>digits = [0], negative = False\<rparr>"
  by code_simp

text \<open>
  C8, amended. On every string without the upper-case prefix, \<^verbatim>\<open>fromHexString\<close> succeeds
  exactly on the format with zero or more hex digits (an optional \<open>-\<close>, an optional
  prefix, then any number of hex digits) and fails with \<open>InvalidHex\<close> on every other
  string; when the digit part is empty the result is zero.
\<close>

theorem fromHexString_accepts:
  assumes "\<not> upper_prefix s"
  shows "((\<exists>v. fromHexString s = Inr v) \<longleftrightarrow> relaxed_hex_format s) \<and>
         (fromHexString s = Inl InvalidHex \<longleftrightarrow> \<not> relaxed_hex_format s) \<and>
         (spec_digit_part s = []
            \<longrightarrow> fromHexString s = Inr \<lparr>digits = [0], negative = False\<rparr>)"
proof -
  have acc: "relaxed_hex_format s \<longleftrightarrow> accepted_hex s"
    using assms by (rule relaxed_is_accepted)
  have part: "spec_digit_part s
                = (if take 2 (strip_sign s) = ''0x'' then drop 2 (strip_sign s) else strip_sign s)"
    using assms by (simp add: upper_prefix_def spec_digit_part_def Let_def)
  have "fromHexString s = Inr \<lparr>digits = [0], negative = False\<rparr>" if "spec_digit_part s = []"
    using that part by (intro fromHexString_empty_digits) simp
  then show ?thesis
    using fromHexString_cases [of s] acc by auto
qed

theorem fromHexString_accepts_witness:
  "\<not> upper_prefix ''-0x'' \<and> spec_digit_part ''-0x'' = [] \<and> relaxed_hex_format ''-0x'' \<and>
   fromHexString ''-0x'' = Inr \<lparr>digits = [0], negative = False\<rparr> \<and>
   \<not> upper_prefix ''12g'' \<and> \<not> relaxed_hex_format ''12g'' \<and>
   fromHexString ''12g'' = Inl InvalidHex"
proof -
  have a: "\<not> upper_prefix ''-0x''" "spec_digit_part ''-0x'' = []" "relaxed_hex_format ''-0x''"
    "\<not> upper_prefix ''12g''" "\<not> relaxed_hex_format ''12g''"
    by code_simp+
  show ?thesis
    using a fromHexString_accepts [of "''-0x''"] fromHexString_accepts [of "''12g''"]
    by simp
qed

text \<open>
  C9. \<^verbatim>\<open>toInt64\<close> returns the represented value for every \<open>BigNum\<close> in
  \<open>[-2^63, 2^63 - 1]\<close>, the lower boundary in particular, and fails with
  \<open>OverflowToInt64\<close> outside. The code does not at the boundary the claim singles out: for
  magnitude \<open>2^63\<close> with the sign set, which is \<^verbatim>\<open>BigNum(INT64_MIN)\<close>, the conversion
  \<^verbatim>\<open>static_cast<int64_t>(value)\<close> is the minimal \<^verbatim>\<open>int64_t\<close> and the unary minus applied to
  it overflows, so the call has no defined result.
\<close>

theorem toInt64_undefined_at_minimum:
  "ofInt64 INT64_MIN = \<lparr>digits = [0x8000000000000000], negative = True\<rparr> \<and>
   canonical \<lparr>digits = [0x8000000000000000], negative = True\<rparr> \<and>
   bn_val \<lparr>digits = [0x8000000000000000], negative = True\<rparr> = - (2 ^ 63) \<and>
   s64 0x8000000000000000 = INT64_MIN \<and>
   neg_int64 INT64_MIN = Undefined \<and>
   toInt64 \<lparr>digits = [0x8000000000000000], negative = True\<rparr> = Undefined"
proof -
  let ?a = "\<lparr>digits = [0x8000000000000000], negative = True\<rparr>"
  have c: "ofInt64 INT64_MIN = ?a" "canonical ?a" "s64 0x8000000000000000 = INT64_MIN"
    "neg_int64 INT64_MIN = Undefined" "toInt64 ?a = Undefined"
    by code_simp+
  have v: "bn_val ?a = - (2 ^ 63)"
    by (simp add: bn_val_def magnitude_def)
  show ?thesis
    by (intro conjI c v)
qed

text \<open>
  C10. \<^verbatim>\<open>toByteArray\<close> of zero is the empty sequence, \<^verbatim>\<open>fromByteArray\<close> of the empty
  sequence is the canonical zero, and so the byte round trip holds at zero.
\<close>

theorem zero_byte_round_trip:
  "toByteArray zero = [] \<and>
   toByteArray \<lparr>digits = [0], negative = True\<rparr> = [] \<and>
   fromByteArray [] = zero \<and>
   zero = \<lparr>digits = [0], negative = False\<rparr> \<and> canonical zero \<and>
   fromByteArray (toByteArray zero) = zero"
  by code_simp

end
